theory Spec2Isabelle
  imports Main "HOL-Library.Word"
begin

section \<open>Text, bytes and errors\<close>

text \<open>
  A JavaScript string is modelled by the bytes of its UTF-8 encoding, one \<^typ>\<open>char\<close> per
  byte: every well-formed Unicode text has exactly one such form (a lone UTF-16 surrogate
  has none and is outside the model). A \<open>Buffer\<close> is a list of bytes.
\<close>

type_synonym byte = "8 word"

text \<open>
  \<open>new Error(message)\<close> as thrown by the program itself, and the errors the platform
  raises (a failed spawn, \<open>JSON.parse\<close>, \<open>fetch\<close>).
\<close>

datatype error = Error string | SystemError string

subsection \<open>Hexadecimal\<close>

text \<open>The character class \<open>[0-9a-f]\<close> under the flag \<open>i\<close>: digits and both letter cases.\<close>

definition is_hex_char :: "char \<Rightarrow> bool" where
  "is_hex_char c =
     (let n = (of_char c :: nat)
      in (48 \<le> n \<and> n \<le> 57) \<or> (97 \<le> n \<and> n \<le> 102) \<or> (65 \<le> n \<and> n \<le> 70))"

text \<open>The regular expression \<open>/^[0-9a-f]{64}$/i\<close> of \<open>encrypt\<close>.\<close>

definition key_format :: "string \<Rightarrow> bool" where
  "key_format keyHex = (length keyHex = 64 \<and> list_all is_hex_char keyHex)"

definition hex_digit :: "nat \<Rightarrow> char" where
  "hex_digit n = (if n < 10 then char_of (48 + n) else char_of (87 + n))"

text \<open>\<open>buf.toString('hex')\<close>: two lower-case digits per byte.\<close>

definition to_hex :: "byte list \<Rightarrow> string" where
  "to_hex bs = concat (map (\<lambda>b. [hex_digit (unat b div 16), hex_digit (unat b mod 16)]) bs)"

definition hex_value :: "char \<Rightarrow> nat" where
  "hex_value c =
     (let n = (of_char c :: nat)
      in if n \<le> 57 then n - 48 else if 97 \<le> n then n - 87 else n - 55)"

text \<open>
  \<open>Buffer.from(s, 'hex')\<close>: pairs of digits are decoded until the first pair that is not
  hexadecimal; a trailing single digit is dropped.
\<close>

fun from_hex :: "string \<Rightarrow> byte list" where
  "from_hex (a # b # cs) =
     (if is_hex_char a \<and> is_hex_char b
      then of_nat (16 * hex_value a + hex_value b) # from_hex cs
      else [])"
| "from_hex _ = []"

text \<open>The bytes a string is written as under the encoding \<open>'utf8'\<close>.\<close>

definition utf8 :: "string \<Rightarrow> byte list" where
  "utf8 s = map of_char s"

section \<open>Encryption (\<open>encrypt\<close>)\<close>

text \<open>
  The random source of \<open>crypto.randomBytes\<close> is a stream of bytes together with the
  number of bytes already handed out; a call takes the next \<open>n\<close> bytes.
\<close>

record rng =
  entropy :: "nat \<Rightarrow> byte"
  consumed :: nat

definition randomBytes :: "nat \<Rightarrow> rng \<Rightarrow> byte list \<times> rng" where
  "randomBytes n g =
     (map (entropy g) [consumed g ..< consumed g + n], g\<lparr>consumed := consumed g + n\<rparr>)"


text \<open>
  The cipher \<open>aes-256-gcm\<close> of the platform's library is a parameter: from the key, the
  initialization vector and the plaintext it gives the ciphertext and the
  authentication tag.
\<close>

type_synonym aead = "byte list \<Rightarrow> byte list \<Rightarrow> byte list \<Rightarrow> byte list \<times> byte list"

text \<open>What the library promises of the cipher: a tag of 16 bytes (the default length).\<close>

definition tag16 :: "aead \<Rightarrow> bool" where
  "tag16 cipher = (\<forall>key iv pt. length (snd (cipher key iv pt)) = 16)"


text \<open>
  \<open>encrypt(value, keyHex)\<close>. The result is the thrown error or the returned string, with
  the random source as the call leaves it.
\<close>

definition encrypt :: "aead \<Rightarrow> rng \<Rightarrow> string \<Rightarrow> string \<Rightarrow> (error + string) \<times> rng" where
  "encrypt aes_256_gcm g val keyHex =
     (if \<not> key_format keyHex
      then (Inl (Error ''Key must be 64 hexadecimal characters (0-f)''), g)
      else
        let key = from_hex keyHex;
            (iv, g') = randomBytes 12 g;
            (encrypted, authTag) = aes_256_gcm key iv (utf8 val)
        in (Inr (to_hex iv @ '':'' @ to_hex authTag @ '':'' @ to_hex encrypted), g'))"

text \<open>
  A stand-in for the library's cipher at concrete inputs: the plaintext is masked byte by
  byte with the first byte of the initialization vector, and the tag is 16 bytes.
\<close>

definition mask_cipher :: aead where
  "mask_cipher key iv pt = (map (\<lambda>b. b + (case iv of [] \<Rightarrow> 0 | i # _ \<Rightarrow> i)) pt, replicate 16 (of_nat (length key)))"

definition zero_key :: string where
  "zero_key = replicate 64 (CHR ''0'')"

text \<open>Splitting a text at a separator character, as the reader of a payload does.\<close>

fun split_on :: "char \<Rightarrow> string \<Rightarrow> string list" where
  "split_on c [] = [[]]"
| "split_on c (x # xs) =
     (if x = c then [] # split_on c xs
      else (case split_on c xs of [] \<Rightarrow> [[x]] | s # ss \<Rightarrow> (x # s) # ss))"



text \<open>A random source for concrete inputs: byte \<open>i\<close> of the stream is \<open>i mod 256\<close>.\<close>

definition counting_rng :: rng where
  "counting_rng = \<lparr>entropy = (\<lambda>i. of_nat i), consumed = 0\<rparr>"

section \<open>Running a subprocess (\<open>runCommand\<close>)\<close>

subsection \<open>Library functions on text\<close>

text \<open>
  The characters \<open>String.prototype.trim\<close> removes (\<open>WhiteSpace\<close> and
  \<open>LineTerminator\<close> of the language standard), each in its UTF-8 form: U+0009 to U+000D,
  U+0020, U+00A0, U+1680, U+2000 to U+200A, U+2028, U+2029, U+202F, U+205F, U+3000 and
  U+FEFF.
\<close>

definition white_space :: "string list" where
  "white_space =
     [[CHR 0x09], [CHR 0x0A], [CHR 0x0B], [CHR 0x0C], [CHR 0x0D], [CHR 0x20],
      [CHR 0xC2, CHR 0xA0], [CHR 0xE1, CHR 0x9A, CHR 0x80],
      [CHR 0xE2, CHR 0x80, CHR 0x80], [CHR 0xE2, CHR 0x80, CHR 0x81],
      [CHR 0xE2, CHR 0x80, CHR 0x82], [CHR 0xE2, CHR 0x80, CHR 0x83],
      [CHR 0xE2, CHR 0x80, CHR 0x84], [CHR 0xE2, CHR 0x80, CHR 0x85],
      [CHR 0xE2, CHR 0x80, CHR 0x86], [CHR 0xE2, CHR 0x80, CHR 0x87],
      [CHR 0xE2, CHR 0x80, CHR 0x88], [CHR 0xE2, CHR 0x80, CHR 0x89],
      [CHR 0xE2, CHR 0x80, CHR 0x8A], [CHR 0xE2, CHR 0x80, CHR 0xA8],
      [CHR 0xE2, CHR 0x80, CHR 0xA9], [CHR 0xE2, CHR 0x80, CHR 0xAF],
      [CHR 0xE2, CHR 0x81, CHR 0x9F], [CHR 0xE3, CHR 0x80, CHR 0x80],
      [CHR 0xEF, CHR 0xBB, CHR 0xBF]]"

text \<open>Removing, from the front of a text, every leading occurrence of one of the patterns.\<close>

function strip :: "string list \<Rightarrow> string \<Rightarrow> string" where
  "strip ws s =
     (case find (\<lambda>w. w \<noteq> [] \<and> take (length w) s = w) ws of
        None \<Rightarrow> s
      | Some w \<Rightarrow> strip ws (drop (length w) s))"
  by pat_completeness auto
termination
proof (relation "measure (\<lambda>(ws, s). length s)")
  show "wf (measure (\<lambda>(ws, s). length s))" by simp
next
  fix ws :: "string list" and s w :: string
  assume "find (\<lambda>w. w \<noteq> [] \<and> take (length w) s = w) ws = Some w"
  then have "w \<noteq> []" and "take (length w) s = w"
    by (auto simp: find_Some_iff)
  then have "s \<noteq> []" and "0 < length w" by auto
  then show "((ws, drop (length w) s), (ws, s)) \<in> measure (\<lambda>(ws, s). length s)"
    by simp
qed

definition trimStart :: "string \<Rightarrow> string" where
  "trimStart s = strip white_space s"

definition trimEnd :: "string \<Rightarrow> string" where
  "trimEnd s = rev (strip (map rev white_space) (rev s))"

text \<open>\<open>s.trim()\<close> removes white space at both ends.\<close>

definition trim :: "string \<Rightarrow> string" where
  "trim s = trimEnd (trimStart s)"

text \<open>\<open>s.replace(/\r/g, '\n')\<close>.\<close>

definition cr_to_lf :: "string \<Rightarrow> string" where
  "cr_to_lf s = map (\<lambda>c. if c = CHR 0x0D then CHR 0x0A else c) s"

text \<open>\<open>xs.join(sep)\<close>.\<close>

fun join :: "string \<Rightarrow> string list \<Rightarrow> string" where
  "join sep [] = []"
| "join sep [x] = x"
| "join sep (x # y # ys) = x @ sep @ join sep (y # ys)"

text \<open>A number in a template literal: the decimal digits of an integer, with its sign.\<close>

fun digits :: "nat \<Rightarrow> string" where
  "digits n = (if n < 10 then [char_of (48 + n)] else digits (n div 10) @ [char_of (48 + n mod 10)])"

definition number_text :: "int \<Rightarrow> string" where
  "number_text i = (if i < 0 then CHR ''-'' # digits (nat (- i)) else digits (nat i))"

subsection \<open>\<open>logCommand\<close>\<close>

text \<open>The character class \<open>[\w@%+=:,./-]\<close>.\<close>

definition is_plain_char :: "char \<Rightarrow> bool" where
  "is_plain_char c =
     (let n = (of_char c :: nat)
      in (48 \<le> n \<and> n \<le> 57) \<or> (65 \<le> n \<and> n \<le> 90) \<or> (97 \<le> n \<and> n \<le> 122) \<or> c = CHR ''_'' \<or>
         c \<in> set ''@%+=:,./-'')"

definition quoteArg :: "string \<Rightarrow> string" where
  "quoteArg arg =
     (if arg \<noteq> [] \<and> list_all is_plain_char arg then arg
      else [CHR 0x22] @
           concat (map (\<lambda>c. if c = CHR 0x22 \<or> c = CHR 0x5C then [CHR 0x5C, c] else [c]) arg) @
           [CHR 0x22])"

text \<open>The line \<open>console.log\<close> prints for a command.\<close>

definition logCommand :: "string \<Rightarrow> string list \<Rightarrow> string" where
  "logCommand command args = ''> '' @ join '' '' (command # map quoteArg args) @ [CHR 0x0A]"

subsection \<open>The promise and its event handlers\<close>

text \<open>
  What the child process delivers to the handlers \<open>runCommand\<close> registers: the event
  \<open>error\<close> with the platform's error, a chunk of data on standard output or on the error
  stream (the text \<open>data.toString()\<close> gives), and the event \<open>close\<close> with the exit code
  (\<open>null\<close>, here \<open>None\<close>, when a signal ended the process).
\<close>

datatype event =
    ChildError error
  | StdoutData string
  | StderrData string
  | Close "int option"

text \<open>A call of the promise's \<open>resolve\<close> or \<open>reject\<close>.\<close>

datatype settlement = Resolve string | Reject error

datatype stdin_op = Write string | End

text \<open>
  The variables of one call: the accumulators \<open>output\<close> and \<open>error\<close> (here
  \<open>output_acc\<close> and \<open>error_acc\<close>), the flag
  \<open>settled\<close>, the calls of \<open>resolve\<close> and \<open>reject\<close> made so far, what was written to the
  console, what was done to the child's input stream, and the exception the body of the
  promise threw, if it threw one (the promise is then rejected with it).
\<close>

record run_state =
  output_acc :: string
  error_acc :: string
  settled :: bool
  calls :: "settlement list"
  console :: "string list"
  stdin_ops :: "stdin_op list"
  thrown :: "error option"

definition fail :: "error \<Rightarrow> run_state \<Rightarrow> run_state" where
  "fail err st = (if \<not> settled st then st\<lparr>settled := True, calls := calls st @ [Reject err]\<rparr> else st)"

definition succeed :: "string \<Rightarrow> run_state \<Rightarrow> run_state" where
  "succeed result st =
     (if \<not> settled st then st\<lparr>settled := True, calls := calls st @ [Resolve result]\<rparr> else st)"

definition code_text :: "int option \<Rightarrow> string" where
  "code_text code = (case code of None \<Rightarrow> ''null'' | Some n \<Rightarrow> number_text n)"

text \<open>One event, handled by the handler registered for it.\<close>

fun on_event :: "string \<Rightarrow> bool \<Rightarrow> run_state \<Rightarrow> event \<Rightarrow> run_state" where
  "on_event command hideError st (ChildError err) = fail err st"
| "on_event command hideError st (StdoutData d) =
     st\<lparr>console := console st @ [cr_to_lf d], output_acc := output_acc st @ d\<rparr>"
| "on_event command hideError st (StderrData d) =
     (if \<not> hideError
      then st\<lparr>console := console st @ [cr_to_lf d], error_acc := error_acc st @ d\<rparr>
      else st\<lparr>error_acc := error_acc st @ d\<rparr>)"
| "on_event command hideError st (Close code) =
     (if code \<noteq> Some 0
      then fail (Error (command @ '' exited with code '' @ code_text code @ [CHR 0x0A] @ error_acc st)) st
      else succeed (trim (output_acc st)) st)"

text \<open>
  \<open>spawn(command, args, ...)\<close> validates its arguments before it starts anything: an empty
  command, or a NUL character in the command or in an argument, makes it throw.
\<close>

definition invalid_spawn_arguments :: "string \<Rightarrow> string list \<Rightarrow> bool" where
  "invalid_spawn_arguments command args =
     (command = [] \<or> CHR 0x00 \<in> set command \<or> list_ex (\<lambda>arg. CHR 0x00 \<in> set arg) args)"

text \<open>
  What the platform makes of a spawn with valid arguments: \<open>spawn\<close> throws (a system error
  it does not report by an event), or it returns a child with its three pipes, which then
  delivers its events.
\<close>

datatype spawning = SpawnThrows error | Child "event list"

text \<open>The call of \<open>spawn\<close>: the exception it throws, or the events of the child it returns.\<close>

definition spawn :: "string \<Rightarrow> string list \<Rightarrow> spawning \<Rightarrow> error + event list" where
  "spawn command args platform =
     (if invalid_spawn_arguments command args then Inl (SystemError ''ERR_INVALID_ARG_VALUE'')
      else (case platform of SpawnThrows e \<Rightarrow> Inl e | Child evs \<Rightarrow> Inr evs))"

text \<open>
  The body of the promise after \<open>spawn\<close> has returned a child, up to the first event: the
  handlers are registered, and \<open>if (stdin)\<close> guards the write to the child's input stream
  (an absent and an empty string are both falsy). The command was logged before.
\<close>

definition spawned :: "string \<Rightarrow> string list \<Rightarrow> string option \<Rightarrow> run_state" where
  "spawned command args stdin =
     \<lparr>output_acc = [], error_acc = [], settled = False, calls = [],
      console = [logCommand command args],
      stdin_ops = (case stdin of
                     None \<Rightarrow> []
                   | Some s \<Rightarrow> if s \<noteq> [] then [Write s, End] else []),
      thrown = None\<rparr>"

text \<open>
  The body of the promise when \<open>spawn\<close> throws: the exception leaves the body at once, so
  no handler is registered and nothing is written to an input stream; only the command
  was logged.
\<close>

definition spawn_failed :: "string \<Rightarrow> string list \<Rightarrow> error \<Rightarrow> run_state" where
  "spawn_failed command args e =
     \<lparr>output_acc = [], error_acc = [], settled = False, calls = [],
      console = [logCommand command args], stdin_ops = [], thrown = Some e\<rparr>"

text \<open>The handlers of a spawned child on the events it delivers, in their order.\<close>

definition run_child ::
  "string \<Rightarrow> string list \<Rightarrow> string option \<Rightarrow> bool \<Rightarrow> event list \<Rightarrow> run_state" where
  "run_child command args stdin hideError evs =
     foldl (on_event command hideError) (spawned command args stdin) evs"

text \<open>
  \<open>runCommand(command, args, {stdin, hideError})\<close> (\<open>hideError\<close> absent is \<open>False\<close>).
\<close>

definition runCommand ::
  "string \<Rightarrow> string list \<Rightarrow> string option \<Rightarrow> bool \<Rightarrow> spawning \<Rightarrow> run_state" where
  "runCommand command args stdin hideError platform =
     (case spawn command args platform of
        Inl e \<Rightarrow> spawn_failed command args e
      | Inr evs \<Rightarrow> run_child command args stdin hideError evs)"

text \<open>
  The promise is rejected by an exception of its body, and otherwise settled by the first
  call of \<open>resolve\<close> or \<open>reject\<close>; before, it is pending.
\<close>

definition outcome :: "run_state \<Rightarrow> settlement option" where
  "outcome st =
     (case thrown st of
        Some e \<Rightarrow> Some (Reject e)
      | None \<Rightarrow> (case calls st of [] \<Rightarrow> None | c # _ \<Rightarrow> Some c))"

text \<open>The text a child wrote on each stream, read off the events it delivered.\<close>

fun stdout_text :: "event list \<Rightarrow> string" where
  "stdout_text [] = []"
| "stdout_text (StdoutData d # evs) = d @ stdout_text evs"
| "stdout_text (_ # evs) = stdout_text evs"

fun stderr_text :: "event list \<Rightarrow> string" where
  "stderr_text [] = []"
| "stderr_text (StderrData d # evs) = d @ stderr_text evs"
| "stderr_text (_ # evs) = stderr_text evs"

fun is_data :: "event \<Rightarrow> bool" where
  "is_data (StdoutData _) = True"
| "is_data (StderrData _) = True"
| "is_data _ = False"

text \<open>The guard's invariant: the flag is set exactly when a call was made, and at most one was.\<close>

definition guarded :: "run_state \<Rightarrow> bool" where
  "guarded st = ((settled st \<longleftrightarrow> calls st \<noteq> []) \<and> length (calls st) \<le> 1)"


text \<open>The chunks that are echoed to the console: all of standard output, and those of the
  error stream unless \<open>hideError\<close> is set.\<close>

fun echo_chunks :: "bool \<Rightarrow> event list \<Rightarrow> string list" where
  "echo_chunks h [] = []"
| "echo_chunks h (StdoutData d # evs) = d # echo_chunks h evs"
| "echo_chunks h (StderrData d # evs) = (if h then echo_chunks h evs else d # echo_chunks h evs)"
| "echo_chunks h (_ # evs) = echo_chunks h evs"

section \<open>Token refresh (\<open>oauth\<close>)\<close>

subsection \<open>Values and library functions\<close>

text \<open>
  A value of type \<open>any\<close>, as \<open>JSON.parse\<close> gives it and as an object literal holds it.
  Numbers are the integers and \<open>NaN\<close>; other numbers are outside the model.
\<close>

datatype jsvalue =
    JNull
  | JBool bool
  | JNum int
  | JNaN
  | JStr string
  | JArr "jsvalue list"
  | JObj "(string \<times> jsvalue) list"

text \<open>An object with string keys: its own enumerable properties in the order of insertion.\<close>

type_synonym jsobject = "(string \<times> jsvalue) list"

text \<open>Assigning one property: an existing key keeps its place, a new one goes last.\<close>

fun set_prop :: "jsobject \<Rightarrow> string \<Rightarrow> jsvalue \<Rightarrow> jsobject" where
  "set_prop [] k v = [(k, v)]"
| "set_prop ((k', v') # ps) k v = (if k' = k then (k, v) # ps else (k', v') # set_prop ps k v)"

text \<open>Spreading properties into an object literal (\<open>{ ...source }\<close>), source order kept.\<close>

definition assign :: "jsobject \<Rightarrow> jsobject \<Rightarrow> jsobject" where
  "assign target source = foldl (\<lambda>obj (k, v). set_prop obj k v) target source"

text \<open>
  A promise: it fulfils with a value or rejects (\<open>None\<close>). Its state and its result are
  internal slots, not properties: a promise object has no own enumerable property, so
  spreading one contributes nothing.
\<close>

datatype 'a promise = Promise "'a option"

definition own_enumerable_properties :: "jsvalue promise \<Rightarrow> jsobject" where
  "own_enumerable_properties p = []"

text \<open>The characters \<open>encodeURIComponent\<close> leaves as they are: \<open>A-Z a-z 0-9 - _ . ! ~ * ' ( )\<close>.\<close>

definition is_unreserved :: "char \<Rightarrow> bool" where
  "is_unreserved c =
     (let n = (of_char c :: nat)
      in (48 \<le> n \<and> n \<le> 57) \<or> (65 \<le> n \<and> n \<le> 90) \<or> (97 \<le> n \<and> n \<le> 122) \<or>
         c \<in> set [CHR ''-'', CHR ''_'', CHR ''.'', CHR ''!'', CHR ''~'', CHR ''*'', CHR 0x27,
                   CHR ''('', CHR '')''])"

definition upper_hex_digit :: "nat \<Rightarrow> char" where
  "upper_hex_digit n = (if n < 10 then char_of (48 + n) else char_of (55 + n))"

text \<open>
  \<open>encodeURIComponent\<close>: every other character is replaced by the bytes of its UTF-8 form,
  each written \<open>%XX\<close> with upper-case digits.
\<close>

definition encodeURIComponent :: "string \<Rightarrow> string" where
  "encodeURIComponent s =
     concat (map (\<lambda>c. if is_unreserved c then [c]
                       else [CHR ''%'', upper_hex_digit (of_char c div 16),
                             upper_hex_digit (of_char c mod 16)]) s)"

text \<open>The declared shape of a stored credential (\<open>interface OAuthToken\<close>).\<close>

record OAuthToken =
  access_token :: string
  refresh_token :: "string option"
  expires_in :: int
  token_type :: string
  scope :: "string option"
  id_token :: "string option"

record request =
  url :: string
  http_method :: string
  headers :: "(string \<times> string) list"
  body :: string

text \<open>
  A response of the token endpoint: the flag \<open>res.ok\<close>, the status, the text of the body
  (\<open>res.text()\<close>) and the body parsed as JSON, if it parses (what the promise \<open>res.json()\<close>
  fulfils with).
\<close>

record response =
  ok :: bool
  status :: nat
  body_text :: string
  body_json :: "jsvalue option"

text \<open>
  The platform the program runs on, as parameters: the HTTP transport, the JSON library
  (with the cast \<open>JSON.parse(token) as OAuthToken\<close> taken at its word: a text that parses has
  the declared shape), \<open>path.join\<close>, the environment variables, the clock and the home
  directory.
\<close>

record runtime =
  fetch :: "request \<Rightarrow> error + response"
  JSON_parse :: "string \<Rightarrow> error + OAuthToken"
  JSON_stringify :: "jsvalue \<Rightarrow> string"
  path_join :: "string \<Rightarrow> string \<Rightarrow> string"
  env :: "string \<rightharpoonup> string"
  now :: int
  homedir :: string

text \<open>
  What the program does to the world outside: the files and directories it writes, the
  HTTP requests it sends, and the lines of \<open>core.info\<close>.
\<close>

record world =
  files :: "string \<rightharpoonup> string"
  dirs :: "string list"
  requests :: "request list"
  info :: "string list"

subsection \<open>\<open>refreshOAuthToken\<close>\<close>

definition objectToUrlEncoded :: "(string \<times> string) list \<Rightarrow> string" where
  "objectToUrlEncoded data =
     join ''&'' (map (\<lambda>(key, v). encodeURIComponent key @ ''='' @ encodeURIComponent v) data)"

text \<open>
  The object \<open>body\<close> of the request: \<open>clientSecret ? {...} : {}\<close> adds the secret when it is
  truthy, that is present and not the empty string.
\<close>

definition refresh_body :: "string \<Rightarrow> string option \<Rightarrow> string \<Rightarrow> (string \<times> string) list" where
  "refresh_body clientId clientSecret refreshToken =
     [(''grant_type'', ''refresh_token''),
      (''refresh_token'', refreshToken),
      (''client_id'', clientId)] @
     (case clientSecret of
        None \<Rightarrow> []
      | Some secret \<Rightarrow> if secret \<noteq> [] then [(''client_secret'', secret)] else [])"

definition refresh_request :: "string \<Rightarrow> string \<Rightarrow> string option \<Rightarrow> string \<Rightarrow> request" where
  "refresh_request tokenEndpoint clientId clientSecret refreshToken =
     \<lparr>url = tokenEndpoint, http_method = ''POST'',
      headers = [(''Content-Type'', ''application/x-www-form-urlencoded''),
                 (''Accept'', ''application/json'')],
      body = objectToUrlEncoded (refresh_body clientId clientSecret refreshToken)\<rparr>"

text \<open>\<open>res.json()\<close> returns a promise; the function does not await it.\<close>

definition res_json :: "response \<Rightarrow> jsvalue promise" where
  "res_json res = Promise (body_json res)"

text \<open>
  \<open>refreshOAuthToken({tokenEndpoint, clientId, clientSecret, refreshToken})\<close>: the thrown
  error or the returned object \<open>{ refresh_token: refreshToken, ...res.json() }\<close>, and the
  world with the request sent.
\<close>

definition refreshOAuthToken ::
  "runtime \<Rightarrow> string \<Rightarrow> string \<Rightarrow> string option \<Rightarrow> string \<Rightarrow> world \<Rightarrow> (error + jsobject) \<times> world" where
  "refreshOAuthToken rt tokenEndpoint clientId clientSecret refreshToken w =
     (let req = refresh_request tokenEndpoint clientId clientSecret refreshToken;
          w' = w\<lparr>requests := requests w @ [req]\<rparr>
      in case fetch rt req of
           Inl e \<Rightarrow> (Inl e, w')
         | Inr res \<Rightarrow>
             if \<not> ok res
             then (Inl (Error (''Token refresh failed: '' @ number_text (int (status res)) @
                               '' '' @ body_text res)), w')
             else (Inr (assign [(''refresh_token'', JStr refreshToken)]
                          (own_enumerable_properties (res_json res))), w'))"

subsection \<open>The providers\<close>

definition GEMINI_OAUTH_CLIENT_ID :: string where
  "GEMINI_OAUTH_CLIENT_ID =
     ''681255809395-oo8ft2oprdrnp9e3aqf6av3hmdib135j.apps.googleusercontent.com''"

definition GEMINI_OAUTH_CLIENT_SECRET :: string where
  "GEMINI_OAUTH_CLIENT_SECRET = ''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''"

definition refreshGeminiToken :: "runtime \<Rightarrow> string \<Rightarrow> world \<Rightarrow> (error + string) \<times> world" where
  "refreshGeminiToken rt refreshToken w =
     (case refreshOAuthToken rt ''https://oauth2.googleapis.com/token'' GEMINI_OAUTH_CLIENT_ID
             (Some GEMINI_OAUTH_CLIENT_SECRET) refreshToken w of
        (Inl e, w') \<Rightarrow> (Inl e, w')
      | (Inr updateToken, w') \<Rightarrow> (Inr (JSON_stringify rt (JObj updateToken)), w'))"

definition QWEN_OAUTH_CLIENT_ID :: string where
  "QWEN_OAUTH_CLIENT_ID = ''f0304373b74a44d2b584a3fb70ca9e56''"

text \<open>
  \<open>Date.now() + updateToken.expires_in * 1000\<close>: the field is declared a number; an absent
  field is \<open>undefined\<close> and makes the sum \<open>NaN\<close> (so does, here, a field that is not a
  number, which the declared type rules out).
\<close>

definition expires_at :: "int \<Rightarrow> jsobject \<Rightarrow> jsvalue" where
  "expires_at t updateToken =
     (case map_of updateToken ''expires_in'' of
        Some (JNum n) \<Rightarrow> JNum (t + n * 1000)
      | _ \<Rightarrow> JNaN)"

text \<open>\<open>refreshQwenToken\<close> (its two \<open>console.log\<close> lines are left out).\<close>

definition refreshQwenToken :: "runtime \<Rightarrow> string \<Rightarrow> world \<Rightarrow> (error + string) \<times> world" where
  "refreshQwenToken rt refreshToken w =
     (case refreshOAuthToken rt ''https://chat.qwen.ai/api/v1/oauth2/token'' QWEN_OAUTH_CLIENT_ID
             None refreshToken w of
        (Inl e, w') \<Rightarrow> (Inl e, w')
      | (Inr updateToken, w') \<Rightarrow>
          (let tokenToSave = set_prop updateToken ''expires_at'' (expires_at (now rt) updateToken)
           in (Inr (JSON_stringify rt (JObj tokenToSave)), w')))"

definition refreshToken :: "runtime \<Rightarrow> string \<Rightarrow> string \<Rightarrow> world \<Rightarrow> (error + string) \<times> world" where
  "refreshToken rt agent token w =
     (if agent = ''gemini'' then refreshGeminiToken rt token w
      else if agent = ''qwen'' then refreshQwenToken rt token w
      else (Inl (Error (''Unsupported agent: '' @ agent)), w))"

section \<open>Credential setup (\<open>setupConfig\<close>)\<close>

record AgentConfig =
  configDir :: string
  settings :: jsvalue
  tokenEnv :: string
  packageName :: string
  runCmd :: "string \<times> string list"

definition getAgentConfig :: "runtime \<Rightarrow> string \<Rightarrow> error + AgentConfig" where
  "getAgentConfig rt agent =
     (if agent = ''gemini'' then
        Inr \<lparr>configDir = path_join rt (homedir rt) ''.gemini'',
             settings = JObj [(''security'',
                          JObj [(''auth'', JObj [(''selectedType'', JStr ''oauth-personal'')])])],
             tokenEnv = ''PROMPTOPS_GEMINI_TOKEN'',
             packageName = ''@google/gemini-cli'',
             runCmd = (''gemini'', [''-y''])\<rparr>
      else if agent = ''qwen'' then
        Inr \<lparr>configDir = path_join rt (homedir rt) ''.qwen'',
             settings = JObj [(''security'',
                          JObj [(''auth'', JObj [(''selectedType'', JStr ''qwen-oauth'')])]),
                        (''$version'', JNum 2)],
             tokenEnv = ''PROMPTOPS_QWEN_TOKEN'',
             packageName = ''@qwen-code/qwen-code'',
             runCmd = (''qwen'', [''-y''])\<rparr>
      else Inl (Error (''Unsupported agent: '' @ agent)))"

text \<open>The writes at the end of \<open>setupConfig\<close>, in their order.\<close>

definition write_config :: "runtime \<Rightarrow> AgentConfig \<Rightarrow> string \<Rightarrow> world \<Rightarrow> world" where
  "write_config rt config updatedToken w =
     w\<lparr>dirs := dirs w @ [configDir config],
       files := ((files w)
                   (path_join rt (configDir config) ''settings.json'' \<mapsto>
                      JSON_stringify rt (settings config)))
                   (path_join rt (configDir config) ''oauth_creds.json'' \<mapsto> updatedToken),
       info := info w @ [''Config initialized in '' @ configDir config]\<rparr>"

text \<open>
  \<open>setupConfig(agent, config)\<close>. The secret must be set and not empty, must parse, and must
  hold a refresh token; only for the agent \<open>gemini\<close> is the token then refreshed.
\<close>

definition setupConfig :: "runtime \<Rightarrow> string \<Rightarrow> AgentConfig \<Rightarrow> world \<Rightarrow> (error + unit) \<times> world" where
  "setupConfig rt agent config w =
     (case env rt (tokenEnv config) of
        None \<Rightarrow> (Inl (Error (''Missing required secret: '' @ tokenEnv config)), w)
      | Some token \<Rightarrow>
          if token = [] then (Inl (Error (''Missing required secret: '' @ tokenEnv config)), w)
          else
            (case JSON_parse rt token of
               Inl e \<Rightarrow> (Inl e, w)
             | Inr tokenData \<Rightarrow>
                 (case refresh_token tokenData of
                    None \<Rightarrow> (Inl (Error ''Missing refresh token''), w)
                  | Some r \<Rightarrow>
                      (case (if agent = ''gemini'' then refreshToken rt agent r w
                             else (Inr token, w)) of
                         (Inl e, w') \<Rightarrow> (Inl e, w')
                       | (Inr updatedToken, w') \<Rightarrow>
                           (Inr (), write_config rt config updatedToken w')))))"

text \<open>
  The fields of a form-encoded body as its reader splits them: at every \<open>&\<close>, and each
  field at its first \<open>=\<close>.
\<close>

definition form_fields :: "string \<Rightarrow> (string \<times> string) list" where
  "form_fields b =
     map (\<lambda>p. (takeWhile (\<lambda>c. c \<noteq> CHR ''='') p, drop 1 (dropWhile (\<lambda>c. c \<noteq> CHR ''='') p)))
       (split_on (CHR ''&'') b)"

text \<open>
  Concrete surroundings: a token endpoint that answers every request with status 200 and
  a rotated refresh token, a JSON library that knows one stored credential, and a world
  in which nothing has happened yet.
\<close>

definition rotated_response :: response where
  "rotated_response =
     \<lparr>ok = True, status = 200, body_text = ''(the JSON text of the body)'',
      body_json = Some (JObj [(''access_token'', JStr ''new-access''),
                              (''refresh_token'', JStr ''rotated''),
                              (''expires_in'', JNum 3599),
                              (''token_type'', JStr ''Bearer''),
                              (''scope'', JStr ''openid''),
                              (''id_token'', JStr ''new-id'')])\<rparr>"

definition stored_credential :: string where
  "stored_credential = ''(the JSON text of a credential with refresh token old-token)''"

definition demo_runtime :: runtime where
  "demo_runtime =
     \<lparr>fetch = (\<lambda>req. Inr rotated_response),
      JSON_parse = (\<lambda>s. if s = stored_credential
                          then Inr \<lparr>access_token = ''old-access'', refresh_token = Some ''old-token'',
                                    expires_in = 3599, token_type = ''Bearer'',
                                    scope = None, id_token = None\<rparr>
                          else Inl (SystemError ''SyntaxError'')),
      JSON_stringify = (\<lambda>v. case v of JObj [(k, JStr s)] \<Rightarrow> ''{'' @ k @ '':'' @ s @ ''}'' | _ \<Rightarrow> ''{}''),
      path_join = (\<lambda>a b. a @ ''/'' @ b),
      env = [''PROMPTOPS_QWEN_TOKEN'' \<mapsto> stored_credential,
             ''PROMPTOPS_GEMINI_TOKEN'' \<mapsto> stored_credential],
      now = 1700000000000,
      homedir = ''/home/runner''\<rparr>"

definition new_world :: world where
  "new_world = \<lparr>files = Map.empty, dirs = [], requests = [], info = []\<rparr>"

text \<open>The configurations \<open>getAgentConfig\<close> gives for the two agents in these surroundings.\<close>

definition qwen_config :: AgentConfig where
  "qwen_config =
     \<lparr>configDir = ''/home/runner/.qwen'',
      settings = JObj [(''security'',
                   JObj [(''auth'', JObj [(''selectedType'', JStr ''qwen-oauth'')])]),
                 (''$version'', JNum 2)],
      tokenEnv = ''PROMPTOPS_QWEN_TOKEN'',
      packageName = ''@qwen-code/qwen-code'',
      runCmd = (''qwen'', [''-y''])\<rparr>"

definition gemini_config :: AgentConfig where
  "gemini_config =
     \<lparr>configDir = ''/home/runner/.gemini'',
      settings = JObj [(''security'',
                   JObj [(''auth'', JObj [(''selectedType'', JStr ''oauth-personal'')])])],
      tokenEnv = ''PROMPTOPS_GEMINI_TOKEN'',
      packageName = ''@google/gemini-cli'',
      runCmd = (''gemini'', [''-y''])\<rparr>"

text \<open>One field of a form-encoded body, split at its first \<open>=\<close>.\<close>

definition field_of :: "string \<Rightarrow> string \<times> string" where
  "field_of p = (takeWhile (\<lambda>c. c \<noteq> CHR ''='') p, drop 1 (dropWhile (\<lambda>c. c \<noteq> CHR ''='') p))"

section \<open>Facts about the hexadecimal encoding\<close>

lemma of_char_hex_digit:
  "n < 16 \<Longrightarrow> (of_char (hex_digit n) :: nat) = (if n < 10 then 48 + n else 87 + n)"
  by (simp add: hex_digit_def)

lemma hex_digit_is_hex: "n < 16 \<Longrightarrow> is_hex_char (hex_digit n)"
  by (simp add: is_hex_char_def of_char_hex_digit Let_def)


lemma byte_bound: "unat (b :: byte) < 256"
  using unsigned_less [of b, where 'a = nat] by simp

lemma to_hex_Cons:
  "to_hex (b # bs) = hex_digit (unat b div 16) # hex_digit (unat b mod 16) # to_hex bs"
  by (simp add: to_hex_def)

lemma to_hex_is_hex: "list_all is_hex_char (to_hex bs)"
proof (induction bs)
  case Nil
  show ?case by (simp add: to_hex_def)
next
  case (Cons b bs)
  have "unat b div 16 < 16" using byte_bound [of b] by simp
  with Cons show ?case by (simp add: to_hex_Cons hex_digit_is_hex)
qed

lemma length_to_hex: "length (to_hex bs) = 2 * length bs"
  by (induction bs) (simp_all add: to_hex_def)


lemma is_hex_char_iff: "is_hex_char c \<longleftrightarrow> c \<in> set ''0123456789abcdefABCDEF''"
proof -
  have "(of_char c :: nat) < 256" by simp
  then show ?thesis
    unfolding is_hex_char_def Let_def
    by (simp add: of_char_eq_iff [where ?'a = nat, symmetric]) arith
qed

lemma colon_notin_to_hex: "CHR '':'' \<notin> set (to_hex bs)"
proof
  assume "CHR '':'' \<in> set (to_hex bs)"
  with to_hex_is_hex [of bs] have "is_hex_char (CHR '':'')" by (simp add: list_all_iff)
  then show False by (simp add: is_hex_char_def)
qed

lemma split_on_absent: "c \<notin> set xs \<Longrightarrow> split_on c xs = [xs]"
  by (induction xs) auto

lemma split_on_append: "c \<notin> set xs \<Longrightarrow> split_on c (xs @ c # ys) = xs # split_on c ys"
  by (induction xs) auto

lemma split_payload:
  "split_on (CHR '':'') (to_hex a @ '':'' @ to_hex b @ '':'' @ to_hex c) =
     [to_hex a, to_hex b, to_hex c]"
  by (simp add: split_on_append split_on_absent colon_notin_to_hex)

section \<open>Facts about \<open>encrypt\<close>\<close>

lemma length_randomBytes: "length (fst (randomBytes n g)) = n"
  by (simp add: randomBytes_def)

lemma encrypt_valid:
  assumes "key_format keyHex"
  shows "encrypt cipher g val keyHex =
     (Inr (to_hex (fst (randomBytes 12 g)) @ '':'' @
           to_hex (snd (cipher (from_hex keyHex) (fst (randomBytes 12 g)) (utf8 val))) @ '':'' @
           to_hex (fst (cipher (from_hex keyHex) (fst (randomBytes 12 g)) (utf8 val)))),
      g\<lparr>consumed := consumed g + 12\<rparr>)"
  using assms by (simp add: encrypt_def randomBytes_def Let_def split: prod.splits)

lemma key_format_zero_key: "key_format zero_key"
  by (simp add: key_format_def zero_key_def list_all_iff is_hex_char_def)

lemma tag16_mask_cipher: "tag16 mask_cipher"
  by (simp add: tag16_def mask_cipher_def)





lemma key_format_iff:
  "key_format keyHex \<longleftrightarrow>
     length keyHex = 64 \<and> set keyHex \<subseteq> set ''0123456789abcdefABCDEF''"
  unfolding key_format_def list_all_iff using is_hex_char_iff by blast

lemma hex_key_zero_key:
  "length zero_key = 64 \<and> set zero_key \<subseteq> set ''0123456789abcdefABCDEF''"
  using key_format_zero_key by (simp only: key_format_iff)

text \<open>
  Claim C3. For every key of 64 hexadecimal characters (in either case) and every
  plaintext, \<open>encrypt\<close> returns three segments separated by colons, each of hexadecimal
  characters and in this order: the initialization vector of 12 bytes (24 characters), the
  authentication tag of 16 bytes (32 characters, the tag length of the library's cipher),
  and the ciphertext.
\<close>

theorem encrypt_payload_format:
  fixes cipher :: aead and g :: rng and keyHex val :: string
  defines "iv \<equiv> fst (randomBytes 12 g)"
  defines "ct \<equiv> fst (cipher (from_hex keyHex) iv (utf8 val))"
  defines "tag \<equiv> snd (cipher (from_hex keyHex) iv (utf8 val))"
  assumes "length keyHex = 64 \<and> set keyHex \<subseteq> set ''0123456789abcdefABCDEF''"
    and "tag16 cipher"
  shows "fst (encrypt cipher g val keyHex) =
           Inr (to_hex iv @ '':'' @ to_hex tag @ '':'' @ to_hex ct) \<and>
         split_on (CHR '':'') (to_hex iv @ '':'' @ to_hex tag @ '':'' @ to_hex ct) =
           [to_hex iv, to_hex tag, to_hex ct] \<and>
         length iv = 12 \<and> length (to_hex iv) = 24 \<and>
         length tag = 16 \<and> length (to_hex tag) = 32 \<and>
         list_all is_hex_char (to_hex iv) \<and> list_all is_hex_char (to_hex tag) \<and>
         list_all is_hex_char (to_hex ct)"
proof -
  from assms(4) have k: "key_format keyHex" by (simp only: key_format_iff)
  have "fst (encrypt cipher g val keyHex) =
      Inr (to_hex iv @ '':'' @ to_hex tag @ '':'' @ to_hex ct)"
    by (simp add: encrypt_valid [OF k] iv_def ct_def tag_def)
  moreover have "length iv = 12" by (simp add: iv_def length_randomBytes)
  moreover have "length tag = 16" using assms(5) by (simp add: tag_def tag16_def)
  ultimately show ?thesis
    by (simp only: split_payload to_hex_is_hex length_to_hex) simp
qed

text \<open>The theorem at the key of 64 zeros and the plaintext \<open>hello\<close>.\<close>

theorem encrypt_payload_format_witness:
  "length zero_key = 64 \<and> set zero_key \<subseteq> set ''0123456789abcdefABCDEF'' \<and>
   tag16 mask_cipher \<and>
   fst (encrypt mask_cipher counting_rng ''hello'' zero_key) =
     Inr ''000102030405060708090a0b:20202020202020202020202020202020:68656c6c6f'' \<and>
   split_on (CHR '':'') ''000102030405060708090a0b:20202020202020202020202020202020:68656c6c6f'' =
     [''000102030405060708090a0b'', ''20202020202020202020202020202020'', ''68656c6c6f'']"
proof -
  have e: "fst (encrypt mask_cipher counting_rng ''hello'' zero_key) =
     Inr ''000102030405060708090a0b:20202020202020202020202020202020:68656c6c6f''"
    by code_simp
  have s: "split_on (CHR '':'') ''000102030405060708090a0b:20202020202020202020202020202020:68656c6c6f'' =
     [''000102030405060708090a0b'', ''20202020202020202020202020202020'', ''68656c6c6f'']"
    by simp
  show ?thesis
    using encrypt_payload_format [OF hex_key_zero_key tag16_mask_cipher, of counting_rng "''hello''"]
      hex_key_zero_key tag16_mask_cipher e s
    by simp
qed




text \<open>
  Claim C5. A key that is not exactly 64 hexadecimal characters (a wrong length, or a
  character outside \<open>0-9\<close>, \<open>a-f\<close>, \<open>A-F\<close>) makes \<open>encrypt\<close> throw the error of the key
  check with no cipher operation: the random source is left as it was and the cipher has no
  part in the result. A key of 64 hexadecimal characters, in lower or upper case, passes
  the check, and the call returns a payload.
\<close>

theorem encrypt_rejects_malformed_key:
  "(\<not> (length keyHex = 64 \<and> set keyHex \<subseteq> set ''0123456789abcdefABCDEF'') \<longrightarrow>
      encrypt cipher g val keyHex =
        (Inl (Error ''Key must be 64 hexadecimal characters (0-f)''), g)) \<and>
   (length keyHex = 64 \<and> set keyHex \<subseteq> set ''0123456789abcdefABCDEF'' \<longrightarrow>
      key_format keyHex \<and> (\<exists>payload. fst (encrypt cipher g val keyHex) = Inr payload))"
proof -
  note k = key_format_iff [of keyHex]
  show ?thesis
  proof (cases "key_format keyHex")
    case True
    with k encrypt_valid [OF True, of cipher g val] show ?thesis by simp
  next
    case False
    with k show ?thesis by (simp add: encrypt_def)
  qed
qed

text \<open>
  The theorem at a short key, at a key of 64 characters with one that is not hexadecimal,
  and at a key of 64 hexadecimal letters in both cases.
\<close>

theorem encrypt_rejects_malformed_key_witness:
  "encrypt mask_cipher counting_rng ''hello'' ''0123abc'' =
     (Inl (Error ''Key must be 64 hexadecimal characters (0-f)''), counting_rng) \<and>
   encrypt mask_cipher counting_rng ''hello'' (CHR ''g'' # replicate 63 (CHR ''0'')) =
     (Inl (Error ''Key must be 64 hexadecimal characters (0-f)''), counting_rng) \<and>
   key_format (replicate 32 (CHR ''a'') @ replicate 32 (CHR ''F'')) \<and>
   (\<exists>payload. fst (encrypt mask_cipher counting_rng ''hello''
       (replicate 32 (CHR ''a'') @ replicate 32 (CHR ''F''))) = Inr payload)"
  using encrypt_rejects_malformed_key [where keyHex = "''0123abc''" and cipher = mask_cipher
      and g = counting_rng and val = "''hello''"]
    encrypt_rejects_malformed_key [where keyHex = "CHR ''g'' # replicate 63 (CHR ''0'')"
      and cipher = mask_cipher and g = counting_rng and val = "''hello''"]
    encrypt_rejects_malformed_key [where keyHex = "replicate 32 (CHR ''a'') @ replicate 32 (CHR ''F'')"
      and cipher = mask_cipher and g = counting_rng and val = "''hello''"]
  by simp

section \<open>Facts about \<open>runCommand\<close>\<close>

lemma strip_removes_patterns: "\<exists>ps. set ps \<subseteq> set ws \<and> s = concat ps @ strip ws s"
proof (induction ws s rule: strip.induct)
  case (1 ws s)
  show ?case
  proof (cases "find (\<lambda>w. w \<noteq> [] \<and> take (length w) s = w) ws")
    case None
    then have "strip ws s = s" by (subst strip.simps) simp
    then have "set [] \<subseteq> set ws \<and> s = concat [] @ strip ws s" by simp
    then show ?thesis by blast
  next
    case (Some w)
    then have w: "w \<in> set ws" and t: "take (length w) s = w"
      by (auto simp: find_Some_iff)
    from 1 [OF Some] obtain ps where ps: "set ps \<subseteq> set ws"
      and d: "drop (length w) s = concat ps @ strip ws (drop (length w) s)" by blast
    have e: "strip ws s = strip ws (drop (length w) s)"
      using Some by (subst strip.simps) simp
    have "s = take (length w) s @ drop (length w) s" by simp
    with t d e have "s = concat (w # ps) @ strip ws s" by simp
    moreover from w ps have "set (w # ps) \<subseteq> set ws" by simp
    ultimately show ?thesis by blast
  qed
qed

lemma trim_infix:
  "\<exists>ps qs. set ps \<subseteq> set white_space \<and> set qs \<subseteq> set white_space \<and>
           s = concat ps @ trim s @ concat qs"
proof -
  obtain ps where ps: "set ps \<subseteq> set white_space" and p: "s = concat ps @ trimStart s"
    unfolding trimStart_def using strip_removes_patterns by blast
  obtain rs where rs: "set rs \<subseteq> set (map rev white_space)"
    and r: "rev (trimStart s) = concat rs @ strip (map rev white_space) (rev (trimStart s))"
    using strip_removes_patterns by blast
  from r have "rev (rev (trimStart s)) =
      rev (concat rs @ strip (map rev white_space) (rev (trimStart s)))" by simp
  then have "trimStart s = trimEnd (trimStart s) @ concat (map rev (rev rs))"
    by (simp add: trimEnd_def rev_concat)
  with p have "s = concat ps @ trim s @ concat (map rev (rev rs))" by (simp add: trim_def)
  moreover from rs have "set (map rev (rev rs)) \<subseteq> set white_space" by auto
  ultimately show ?thesis using ps by blast
qed

lemma length_cr_to_lf: "length (cr_to_lf s) = length s"
  by (simp add: cr_to_lf_def)

lemma cr_notin_cr_to_lf: "CHR 0x0D \<notin> set (cr_to_lf s)"
  by (auto simp: cr_to_lf_def)

lemma trim_differs_from_echo:
  assumes "CHR 0x0D \<in> set s"
  shows "trim s \<noteq> cr_to_lf s"
proof
  assume e: "trim s = cr_to_lf s"
  obtain ps qs where "s = concat ps @ trim s @ concat qs" using trim_infix by blast
  then obtain p q where pq: "s = p @ trim s @ q" by blast
  then have "length s = length p + length (trim s) + length q"
    by (metis length_append add.assoc)
  with e have "p = []" "q = []" by (simp_all add: length_cr_to_lf)
  with pq have "trim s = s" by simp
  with e assms cr_notin_cr_to_lf [of s] show False by simp
qed

lemma settled_fail: "settled st \<Longrightarrow> fail err st = st"
  by (simp add: fail_def)

lemma settled_succeed: "settled st \<Longrightarrow> succeed r st = st"
  by (simp add: succeed_def)

lemma on_event_settled:
  "settled st \<Longrightarrow> settled (on_event c h st e) \<and> calls (on_event c h st e) = calls st"
  by (cases e) (simp_all add: settled_fail settled_succeed)

lemma foldl_settled:
  "settled st \<Longrightarrow>
     settled (foldl (on_event c h) st evs) \<and> calls (foldl (on_event c h) st evs) = calls st"
proof (induction evs arbitrary: st)
  case Nil
  then show ?case by simp
next
  case (Cons e evs)
  from on_event_settled [OF Cons.prems, of c h e]
  have s: "settled (on_event c h st e)" and k: "calls (on_event c h st e) = calls st" by simp_all
  from Cons.IH [OF s] k show ?case by simp
qed

lemma guarded_on_event: "guarded st \<Longrightarrow> guarded (on_event c h st e)"
  by (cases e) (auto simp: guarded_def fail_def succeed_def)

lemma guarded_foldl: "guarded st \<Longrightarrow> guarded (foldl (on_event c h) st evs)"
  by (induction evs arbitrary: st) (simp_all add: guarded_on_event)

lemma guarded_spawned: "guarded (spawned c a i)"
  by (simp add: guarded_def spawned_def)

lemma guarded_run_child: "guarded (run_child c a i h evs)"
  unfolding run_child_def by (rule guarded_foldl [OF guarded_spawned])

lemma run_child_append:
  "run_child c a i h (pre @ post) = foldl (on_event c h) (run_child c a i h pre) post"
  by (simp add: run_child_def)

lemma on_event_data:
  "is_data e \<Longrightarrow>
     settled (on_event c h st e) = settled st \<and> calls (on_event c h st e) = calls st"
  by (cases e) simp_all

lemma on_event_accs:
  "output_acc (on_event c h st e) = output_acc st @ stdout_text [e] \<and>
   error_acc (on_event c h st e) = error_acc st @ stderr_text [e] \<and>
   stdin_ops (on_event c h st e) = stdin_ops st"
  by (cases e) (simp_all add: fail_def succeed_def)

lemma stdout_text_Cons: "stdout_text (e # evs) = stdout_text [e] @ stdout_text evs"
  by (cases e) simp_all

lemma stderr_text_Cons: "stderr_text (e # evs) = stderr_text [e] @ stderr_text evs"
  by (cases e) simp_all

lemma foldl_accs:
  "output_acc (foldl (on_event c h) st evs) = output_acc st @ stdout_text evs \<and>
   error_acc (foldl (on_event c h) st evs) = error_acc st @ stderr_text evs \<and>
   stdin_ops (foldl (on_event c h) st evs) = stdin_ops st"
proof (induction evs arbitrary: st)
  case Nil
  show ?case by simp
next
  case (Cons e evs)
  show ?case
    using Cons.IH [of "on_event c h st e"] on_event_accs [of c h st e]
      stdout_text_Cons [of e evs] stderr_text_Cons [of e evs]
    by simp
qed

lemma foldl_data:
  "list_all is_data evs \<Longrightarrow>
     settled (foldl (on_event c h) st evs) = settled st \<and>
     calls (foldl (on_event c h) st evs) = calls st"
proof (induction evs arbitrary: st)
  case Nil
  show ?case by simp
next
  case (Cons e evs)
  then have d: "is_data e" and r: "list_all is_data evs" by simp_all
  from Cons.IH [OF r, of "on_event c h st e"] on_event_data [OF d, of c h st]
  show ?case by simp
qed

lemma run_child_data:
  assumes "list_all is_data pre"
  shows "\<not> settled (run_child c a i h pre)" and "calls (run_child c a i h pre) = []"
    and "output_acc (run_child c a i h pre) = stdout_text pre"
    and "error_acc (run_child c a i h pre) = stderr_text pre"
  using foldl_data [OF assms, of c h "spawned c a i"] foldl_accs [of c h "spawned c a i" pre]
  by (simp_all add: run_child_def spawned_def)

lemma on_event_settles:
  "\<not> is_data e \<Longrightarrow> \<not> settled st \<Longrightarrow> settled (on_event c h st e)"
  by (cases e) (simp_all add: fail_def succeed_def)

lemma calls_first:
  assumes "list_all is_data pre" and "\<not> is_data e"
  shows "calls (run_child c a i h (pre @ e # post)) =
           calls (on_event c h (run_child c a i h pre) e)"
proof -
  have "settled (on_event c h (run_child c a i h pre) e)"
    using on_event_settles [OF assms(2) run_child_data(1) [OF assms(1)]] .
  from foldl_settled [OF this, of c h post] show ?thesis
    by (simp add: run_child_def)
qed

lemma first_error:
  assumes "list_all is_data pre"
  shows "calls (run_child c a i h (pre @ ChildError err # post)) = [Reject err]"
  using calls_first [OF assms, of "ChildError err" c a i h post] run_child_data(1,2) [OF assms, of c a i h]
  by (simp add: fail_def)

lemma first_close_zero:
  assumes "list_all is_data pre"
  shows "calls (run_child c a i h (pre @ Close (Some 0) # post)) =
           [Resolve (trim (stdout_text pre))]"
  using calls_first [OF assms, of "Close (Some 0)" c a i h post]
    run_child_data(1,2,3) [OF assms, of c a i h]
  by (simp add: succeed_def)

lemma first_close_nonzero:
  assumes "list_all is_data pre" and "code \<noteq> Some 0"
  shows "calls (run_child c a i h (pre @ Close code # post)) =
           [Reject (Error (c @ '' exited with code '' @ code_text code @ [CHR 0x0A] @ stderr_text pre))]"
  using calls_first [OF assms(1), of "Close code" c a i h post] assms(2)
    run_child_data(1,2,4) [OF assms(1), of c a i h]
  by (simp add: fail_def)

lemma first_settling_event:
  "list_all is_data evs \<or>
   (\<exists>pre e post. evs = pre @ e # post \<and> list_all is_data pre \<and> \<not> is_data e)"
proof (cases "list_all is_data evs")
  case True
  then show ?thesis by simp
next
  case False
  then obtain x where "x \<in> set evs" "\<not> is_data x" by (auto simp: list_all_iff)
  then have "\<exists>pre e post. evs = pre @ e # post \<and> \<not> is_data e \<and> (\<forall>y\<in>set pre. is_data y)"
    using split_list_first_prop [of evs "\<lambda>e. \<not> is_data e"] by blast
  then show ?thesis by (auto simp: list_all_iff)
qed

lemma thrown_on_event: "thrown (on_event c h st e) = thrown st"
  by (cases e) (simp_all add: fail_def succeed_def)

lemma thrown_run_child: "thrown (run_child c a i h evs) = None"
proof -
  have "thrown (foldl (on_event c h) st evs) = thrown st" for st
    by (induction evs arbitrary: st) (simp_all add: thrown_on_event)
  then show ?thesis by (simp add: run_child_def spawned_def)
qed

lemma outcome_run_child:
  "outcome (run_child c a i h evs) =
     (case calls (run_child c a i h evs) of [] \<Rightarrow> None | x # _ \<Rightarrow> Some x)"
  by (simp add: outcome_def thrown_run_child)

lemma spawn_child:
  "\<not> invalid_spawn_arguments c a \<Longrightarrow> spawn c a (Child evs) = Inr evs"
  by (simp add: spawn_def)

lemma spawn_invalid:
  "invalid_spawn_arguments c a \<Longrightarrow> spawn c a p = Inl (SystemError ''ERR_INVALID_ARG_VALUE'')"
  by (simp add: spawn_def)

lemma runCommand_child:
  "\<not> invalid_spawn_arguments c a \<Longrightarrow> runCommand c a i h (Child evs) = run_child c a i h evs"
  by (simp add: runCommand_def spawn_child)

lemma runCommand_throws:
  "spawn c a p = Inl e \<Longrightarrow> runCommand c a i h p = spawn_failed c a e"
  by (simp add: runCommand_def)

lemma runCommand_cases:
  "(\<exists>e. spawn c a p = Inl e \<and> runCommand c a i h p = spawn_failed c a e) \<or>
   (\<exists>evs. spawn c a p = Inr evs \<and> runCommand c a i h p = run_child c a i h evs)"
  by (cases "spawn c a p") (simp_all add: runCommand_def)

lemma outcome_spawn_failed: "outcome (spawn_failed c a e) = Some (Reject e)"
  by (simp add: outcome_def spawn_failed_def)

lemma data_or_deciding_event:
  "list_all is_data evs \<or>
     (\<exists>p e q. evs = p @ e # q \<and> list_all is_data p \<and>
               ((\<exists>err. e = ChildError err) \<or> (\<exists>code. e = Close code)))"
proof -
  have "\<not> is_data e \<longleftrightarrow> (\<exists>err. e = ChildError err) \<or> (\<exists>code. e = Close code)" for e
    by (cases e) simp_all
  with first_settling_event [of evs] show ?thesis by metis
qed

text \<open>
  Claim C2, as amended. The promise of \<open>runCommand\<close> has exactly one of these fates. When
  \<open>spawn\<close> throws (as it does for an empty command and for a NUL character in the command
  or an argument), the promise is rejected with that error and no event matters. When
  \<open>spawn\<close> returns a child, the promise stays pending while only stream data arrives, and
  the first \<open>error\<close> or \<open>close\<close> event decides it, whatever follows: an \<open>error\<close> event
  rejects with the platform's error as it is (no exit code); \<open>close\<close> with code 0 resolves
  with the accumulated standard output with white space removed at both ends, leading as
  well as trailing; \<open>close\<close> with any other code rejects with an error whose message holds
  that code and the accumulated error-stream text. Every sequence of events is either
  stream data only or has such a first deciding event.
\<close>

theorem run_outcome:
  assumes "list_all is_data pre"
  shows "(spawn command args platform = Inl e \<longrightarrow>
            outcome (runCommand command args stdin hideError platform) = Some (Reject e)) \<and>
         (invalid_spawn_arguments command args \<longrightarrow>
            outcome (runCommand command args stdin hideError platform) =
              Some (Reject (SystemError ''ERR_INVALID_ARG_VALUE''))) \<and>
         (\<not> invalid_spawn_arguments command args \<longrightarrow>
            outcome (runCommand command args stdin hideError (Child pre)) = None \<and>
            outcome (runCommand command args stdin hideError
                       (Child (pre @ ChildError err # post))) =
              Some (Reject err) \<and>
            outcome (runCommand command args stdin hideError
                       (Child (pre @ Close (Some 0) # post))) =
              Some (Resolve (trim (stdout_text pre))) \<and>
            (code \<noteq> Some 0 \<longrightarrow>
               outcome (runCommand command args stdin hideError
                          (Child (pre @ Close code # post))) =
                 Some (Reject (Error (command @ '' exited with code '' @ code_text code @
                                      [CHR 0x0A] @ stderr_text pre))))) \<and>
         (list_all is_data evs \<or>
            (\<exists>p e q. evs = p @ e # q \<and> list_all is_data p \<and>
                      ((\<exists>err. e = ChildError err) \<or> (\<exists>code. e = Close code))))"
proof -
  have t: "outcome (runCommand command args stdin hideError platform) = Some (Reject e)"
    if "spawn command args platform = Inl e"
    using runCommand_throws [OF that] by (simp add: outcome_spawn_failed)
  have i: "outcome (runCommand command args stdin hideError platform) =
      Some (Reject (SystemError ''ERR_INVALID_ARG_VALUE''))"
    if "invalid_spawn_arguments command args"
    using runCommand_throws [OF spawn_invalid [OF that]] by (simp add: outcome_spawn_failed)
  have c: "outcome (runCommand command args stdin hideError (Child pre)) = None \<and>
      outcome (runCommand command args stdin hideError (Child (pre @ ChildError err # post))) =
        Some (Reject err) \<and>
      outcome (runCommand command args stdin hideError (Child (pre @ Close (Some 0) # post))) =
        Some (Resolve (trim (stdout_text pre))) \<and>
      (code \<noteq> Some 0 \<longrightarrow>
         outcome (runCommand command args stdin hideError (Child (pre @ Close code # post))) =
           Some (Reject (Error (command @ '' exited with code '' @ code_text code @
                                [CHR 0x0A] @ stderr_text pre))))"
    if "\<not> invalid_spawn_arguments command args"
    unfolding runCommand_child [OF that] outcome_run_child
    using run_child_data(2) [OF assms, of command args stdin hideError]
      first_error [OF assms, of command args stdin hideError err post]
      first_close_zero [OF assms, of command args stdin hideError post]
      first_close_nonzero [OF assms, of code command args stdin hideError post]
    by simp
  from t i c data_or_deciding_event [of evs] show ?thesis by blast
qed

text \<open>
  The theorem at a child that writes to both streams and then fails to launch, exits with
  0, or exits with 128, and at two spawns that throw.
\<close>

theorem run_outcome_witness:
  "list_all is_data [StdoutData ''  ok '', StderrData ''warn''] \<and>
   \<not> invalid_spawn_arguments ''git'' [''status''] \<and>
   outcome (runCommand ''git'' [''status''] None False
     (Child [StdoutData ''  ok '', StderrData ''warn''])) = None \<and>
   outcome (runCommand ''git'' [''status''] None False
     (Child ([StdoutData ''  ok '', StderrData ''warn''] @
             ChildError (SystemError ''spawn git ENOENT'') # [Close (Some (- 2))]))) =
     Some (Reject (SystemError ''spawn git ENOENT'')) \<and>
   outcome (runCommand ''git'' [''status''] None False
     (Child ([StdoutData ''  ok '', StderrData ''warn''] @ Close (Some 0) # []))) =
     Some (Resolve ''ok'') \<and>
   outcome (runCommand ''git'' [''status''] None False
     (Child ([StdoutData ''  ok '', StderrData ''warn''] @ Close (Some 128) # []))) =
     Some (Reject (Error (''git exited with code 128'' @ [CHR 0x0A] @ ''warn''))) \<and>
   invalid_spawn_arguments [] [''status''] \<and>
   outcome (runCommand [] [''status''] None False (Child [Close (Some 0)])) =
     Some (Reject (SystemError ''ERR_INVALID_ARG_VALUE'')) \<and>
   spawn ''git'' [''status''] (SpawnThrows (SystemError ''spawn E2BIG'')) =
     Inl (SystemError ''spawn E2BIG'') \<and>
   outcome (runCommand ''git'' [''status''] None False
     (SpawnThrows (SystemError ''spawn E2BIG''))) =
     Some (Reject (SystemError ''spawn E2BIG''))"
proof -
  have d: "list_all is_data [StdoutData ''  ok '', StderrData ''warn'']" by simp
  have t: "trim (stdout_text [StdoutData ''  ok '', StderrData ''warn'']) = ''ok''"
    by code_simp
  have e: "stderr_text [StdoutData ''  ok '', StderrData ''warn''] = ''warn''" by simp
  have n: "code_text (Some 128) = ''128''" by code_simp
  have z: "Some (128::int) \<noteq> Some 0" by simp
  have v: "\<not> invalid_spawn_arguments ''git'' [''status'']"
    by (simp add: invalid_spawn_arguments_def)
  have i: "invalid_spawn_arguments [] [''status'']"
    by (simp add: invalid_spawn_arguments_def)
  have s: "spawn ''git'' [''status''] (SpawnThrows (SystemError ''spawn E2BIG'')) =
     Inl (SystemError ''spawn E2BIG'')"
    using v by (simp add: spawn_def)
  show ?thesis
    using run_outcome [OF d, where command = "''git''" and args = "[''status'']"
        and stdin = None and hideError = False and err = "SystemError ''spawn git ENOENT''"
        and post = "[Close (Some (- 2))]" and code = "Some 128" and evs = "[]"
        and platform = "SpawnThrows (SystemError ''spawn E2BIG'')"
        and e = "SystemError ''spawn E2BIG''"]
      run_outcome [OF d, where command = "''git''" and args = "[''status'']"
        and stdin = None and hideError = False and code = "Some 128" and post = "[]"
        and evs = "[]" and platform = "Child []"]
      run_outcome [OF d, where command = "[]" and args = "[''status'']"
        and stdin = None and hideError = False and platform = "Child [Close (Some 0)]"
        and evs = "[]"]
    unfolding t e n using d z v i s by simp
qed

text \<open>
  Claim C2 as stated fails: standard output with two leading spaces and no trailing white
  space resolves to the text without the leading spaces, so more than trailing white space
  is trimmed.
\<close>

theorem run_trims_leading_space_counterexample:
  "outcome (runCommand ''git'' [''status''] None False
     (Child [StdoutData ''  ok'', Close (Some 0)])) =
     Some (Resolve ''ok'') \<and>
   trimEnd ''  ok'' = ''  ok''"
  by code_simp

text \<open>
  Claim C6. For every invocation and every sequence of stream-data, \<open>error\<close> and \<open>close\<close>
  events, \<open>resolve\<close> and \<open>reject\<close> are called at most once in total; once the promise is
  settled, later events of any kind add no call and leave the outcome as it is. When
  \<open>spawn\<close> throws, the exception rejects the promise and neither function is ever called.
\<close>

theorem run_settles_once:
  "length (calls (runCommand command args stdin hideError platform)) \<le> 1 \<and>
   (outcome (runCommand command args stdin hideError (Child evs)) \<noteq> None \<longrightarrow>
      calls (runCommand command args stdin hideError (Child (evs @ later))) =
        calls (runCommand command args stdin hideError (Child evs)) \<and>
      outcome (runCommand command args stdin hideError (Child (evs @ later))) =
        outcome (runCommand command args stdin hideError (Child evs))) \<and>
   (spawn command args platform = Inl e \<longrightarrow>
      calls (runCommand command args stdin hideError platform) = [] \<and>
      outcome (runCommand command args stdin hideError platform) = Some (Reject e))"
proof -
  have one: "length (calls (runCommand command args stdin hideError platform)) \<le> 1"
    using runCommand_cases [of command args platform stdin hideError]
      guarded_run_child [of command args stdin hideError]
    by (auto simp: guarded_def spawn_failed_def)
  have thr: "calls (runCommand command args stdin hideError platform) = [] \<and>
      outcome (runCommand command args stdin hideError platform) = Some (Reject e)"
    if "spawn command args platform = Inl e"
    using runCommand_throws [OF that, of stdin hideError]
    by (simp add: outcome_def spawn_failed_def)
  have later: "calls (runCommand command args stdin hideError (Child (evs @ later))) =
        calls (runCommand command args stdin hideError (Child evs)) \<and>
      outcome (runCommand command args stdin hideError (Child (evs @ later))) =
        outcome (runCommand command args stdin hideError (Child evs))"
    if o: "outcome (runCommand command args stdin hideError (Child evs)) \<noteq> None"
  proof (cases "invalid_spawn_arguments command args")
    case True
    then show ?thesis
      using runCommand_throws [OF spawn_invalid [OF True]] by simp
  next
    case False
    let ?st = "run_child command args stdin hideError evs"
    have g: "guarded ?st" by (rule guarded_run_child)
    from o have "calls ?st \<noteq> []"
      unfolding runCommand_child [OF False] outcome_run_child by auto
    with g have "settled ?st" by (simp add: guarded_def)
    from foldl_settled [OF this, of command hideError later]
    have "calls (run_child command args stdin hideError (evs @ later)) = calls ?st"
      by (simp add: run_child_append)
    then show ?thesis
      unfolding runCommand_child [OF False] outcome_run_child by simp
  qed
  from one thr later show ?thesis by blast
qed

text \<open>
  The theorem at a launch error followed by data, two exits and a second error, and at a
  command with a NUL character.
\<close>

theorem run_settles_once_witness:
  "outcome (runCommand ''npm'' [''view''] None True
     (Child [StderrData ''E404'', ChildError (SystemError ''spawn npm ENOENT'')])) =
     Some (Reject (SystemError ''spawn npm ENOENT'')) \<and>
   calls (runCommand ''npm'' [''view''] None True
     (Child ([StderrData ''E404'', ChildError (SystemError ''spawn npm ENOENT'')] @
      [StdoutData ''1.0.0'', Close (Some 0), Close (Some 1),
       ChildError (SystemError ''again'')]))) =
     [Reject (SystemError ''spawn npm ENOENT'')] \<and>
   spawn [CHR ''n'', CHR 0x00] [''view''] (Child [Close (Some 0)]) =
     Inl (SystemError ''ERR_INVALID_ARG_VALUE'') \<and>
   calls (runCommand [CHR ''n'', CHR 0x00] [''view''] None True (Child [Close (Some 0)])) = [] \<and>
   outcome (runCommand [CHR ''n'', CHR 0x00] [''view''] None True (Child [Close (Some 0)])) =
     Some (Reject (SystemError ''ERR_INVALID_ARG_VALUE''))"
proof -
  have o: "outcome (runCommand ''npm'' [''view''] None True
     (Child [StderrData ''E404'', ChildError (SystemError ''spawn npm ENOENT'')])) =
     Some (Reject (SystemError ''spawn npm ENOENT''))" by code_simp
  have c: "calls (runCommand ''npm'' [''view''] None True
     (Child [StderrData ''E404'', ChildError (SystemError ''spawn npm ENOENT'')])) =
     [Reject (SystemError ''spawn npm ENOENT'')]" by code_simp
  have s: "spawn [CHR ''n'', CHR 0x00] [''view''] (Child [Close (Some 0)]) =
     Inl (SystemError ''ERR_INVALID_ARG_VALUE'')"
    by (simp add: spawn_def invalid_spawn_arguments_def)
  show ?thesis
    using run_settles_once [where command = "''npm''" and args = "[''view'']" and stdin = None
        and hideError = True and platform = "Child []"
        and evs = "[StderrData ''E404'', ChildError (SystemError ''spawn npm ENOENT'')]"
        and later = "[StdoutData ''1.0.0'', Close (Some 0), Close (Some 1),
                      ChildError (SystemError ''again'')]"]
      run_settles_once [where command = "[CHR ''n'', CHR 0x00]" and args = "[''view'']"
        and stdin = None and hideError = True and platform = "Child [Close (Some 0)]"
        and e = "SystemError ''ERR_INVALID_ARG_VALUE''" and evs = "[]"]
    unfolding o c using s by simp
qed

lemma on_event_console:
  "console (on_event c h st e) = console st @ map cr_to_lf (echo_chunks h [e])"
  by (cases e) (simp_all add: fail_def succeed_def)

lemma echo_chunks_Cons: "echo_chunks h (e # evs) = echo_chunks h [e] @ echo_chunks h evs"
  by (cases e) simp_all

lemma foldl_console:
  "console (foldl (on_event c h) st evs) = console st @ map cr_to_lf (echo_chunks h evs)"
proof (induction evs arbitrary: st)
  case Nil
  show ?case by simp
next
  case (Cons e evs)
  show ?case
    using Cons.IH [of "on_event c h st e"] on_event_console [of c h st e]
      echo_chunks_Cons [of h e evs]
    by simp
qed

lemma cr_to_lf_append: "cr_to_lf (xs @ ys) = cr_to_lf xs @ cr_to_lf ys"
  by (simp add: cr_to_lf_def)

lemma stdout_echo: "concat (map cr_to_lf (echo_chunks True evs)) = cr_to_lf (stdout_text evs)"
  by (induction evs rule: stdout_text.induct) (simp_all add: cr_to_lf_append cr_to_lf_def)

lemma cr_notin_echo: "CHR 0x0D \<notin> set (concat (map cr_to_lf xs))"
  using cr_notin_cr_to_lf by auto

text \<open>
  Claim C10, as amended. When \<open>spawn\<close> returns a child, the text of a success is the
  accumulated standard output with only white space removed, and only at its two ends:
  every other character, carriage returns too, is kept as the child produced it. Every
  chunk echoed to the console has each carriage return replaced by a newline, so the echo
  of standard output is the accumulated text with that replacement. Whenever the standard
  output holds a carriage return, the text of the success differs from the echoed text.
\<close>

theorem run_echo_differs:
  assumes "list_all is_data pre" and "\<not> invalid_spawn_arguments command args"
  shows "outcome (runCommand command args stdin hideError
                    (Child (pre @ Close (Some 0) # post))) =
           Some (Resolve (trim (stdout_text pre))) \<and>
         (\<exists>ps qs. set ps \<subseteq> set white_space \<and> set qs \<subseteq> set white_space \<and>
                   stdout_text pre = concat ps @ trim (stdout_text pre) @ concat qs) \<and>
         console (runCommand command args stdin hideError (Child pre)) =
           logCommand command args # map cr_to_lf (echo_chunks hideError pre) \<and>
         concat (map cr_to_lf (echo_chunks True pre)) = cr_to_lf (stdout_text pre) \<and>
         CHR 0x0D \<notin> set (concat (map cr_to_lf (echo_chunks hideError pre))) \<and>
         (CHR 0x0D \<in> set (stdout_text pre) \<longrightarrow>
            trim (stdout_text pre) \<noteq> cr_to_lf (stdout_text pre))"
proof -
  have "console (run_child command args stdin hideError pre) =
           logCommand command args # map cr_to_lf (echo_chunks hideError pre)"
    by (simp add: run_child_def foldl_console spawned_def)
  then show ?thesis
    unfolding runCommand_child [OF assms(2)] outcome_run_child
    using first_close_zero [OF assms(1), of command args stdin hideError post]
      trim_infix [of "stdout_text pre"] stdout_echo [of pre]
      cr_notin_echo [of "echo_chunks hideError pre"] trim_differs_from_echo [of "stdout_text pre"]
    by simp
qed

text \<open>
  The theorem at a progress line ended by a carriage return and followed by more output.
\<close>

theorem run_echo_differs_witness:
  "list_all is_data [StdoutData [CHR ''5'', CHR ''0'', CHR ''%'', CHR 0x0D], StdoutData ''done''] \<and>
   \<not> invalid_spawn_arguments ''npm'' [''install''] \<and>
   outcome (runCommand ''npm'' [''install''] None True
      (Child ([StdoutData [CHR ''5'', CHR ''0'', CHR ''%'', CHR 0x0D], StdoutData ''done''] @
              Close (Some 0) # []))) =
     Some (Resolve [CHR ''5'', CHR ''0'', CHR ''%'', CHR 0x0D, CHR ''d'', CHR ''o'', CHR ''n'', CHR ''e'']) \<and>
   console (runCommand ''npm'' [''install''] None True
      (Child [StdoutData [CHR ''5'', CHR ''0'', CHR ''%'', CHR 0x0D], StdoutData ''done''])) =
     [logCommand ''npm'' [''install''], [CHR ''5'', CHR ''0'', CHR ''%'', CHR 0x0A], ''done'']"
proof -
  let ?pre = "[StdoutData [CHR ''5'', CHR ''0'', CHR ''%'', CHR 0x0D], StdoutData ''done'']"
  have d: "list_all is_data ?pre" by simp
  have v: "\<not> invalid_spawn_arguments ''npm'' [''install'']"
    by (simp add: invalid_spawn_arguments_def)
  have t: "trim (stdout_text ?pre) =
      [CHR ''5'', CHR ''0'', CHR ''%'', CHR 0x0D, CHR ''d'', CHR ''o'', CHR ''n'', CHR ''e'']"
    by code_simp
  have e: "map cr_to_lf (echo_chunks True ?pre) = [[CHR ''5'', CHR ''0'', CHR ''%'', CHR 0x0A], ''done'']"
    by (simp add: cr_to_lf_def)
  show ?thesis
    using run_echo_differs [OF d v, where stdin = None and hideError = True and post = "[]"]
    unfolding t e using d v by simp
qed

text \<open>
  Claim C10 as stated fails: a carriage return at the end of the output (here before the
  final newline) is not kept in the text of the success.
\<close>

theorem run_drops_trailing_cr_counterexample:
  "outcome (runCommand ''git'' [''status''] None False
     (Child [StdoutData [CHR ''o'', CHR ''k'', CHR 0x0D, CHR 0x0A], Close (Some 0)])) =
   Some (Resolve ''ok'')"
  by code_simp

text \<open>
  Claim C8, as amended. When a non-empty input is supplied and \<open>spawn\<close> returns a child,
  \<open>runCommand\<close> writes the input to the child's input stream and ends the stream right
  after, and no event changes that. When no input or the empty string is supplied, or when
  \<open>spawn\<close> throws (as it does for an empty command and for a NUL character in the command
  or an argument), nothing is written and no stream is ended.
\<close>

theorem run_stdin_guard:
  "(\<not> invalid_spawn_arguments command args \<and> stdin = Some s \<and> s \<noteq> [] \<longrightarrow>
      stdin_ops (runCommand command args stdin hideError (Child evs)) = [Write s, End]) \<and>
   (stdin = None \<or> stdin = Some [] \<longrightarrow>
      stdin_ops (runCommand command args stdin hideError platform) = []) \<and>
   (spawn command args platform = Inl e \<longrightarrow>
      stdin_ops (runCommand command args stdin hideError platform) = [])"
proof -
  have c: "stdin_ops (run_child command args stdin hideError evs') =
      (case stdin of None \<Rightarrow> [] | Some s \<Rightarrow> if s \<noteq> [] then [Write s, End] else [])" for evs'
    using foldl_accs [of command hideError "spawned command args stdin" evs']
    by (simp add: run_child_def spawned_def)
  have a: "stdin_ops (runCommand command args stdin hideError (Child evs)) = [Write s, End]"
    if "\<not> invalid_spawn_arguments command args" "stdin = Some s" "s \<noteq> []"
    unfolding runCommand_child [OF that(1)] c using that(2,3) by simp
  have t: "stdin_ops (runCommand command args stdin hideError platform) = []"
    if "spawn command args platform = Inl e"
    using runCommand_throws [OF that] by (simp add: spawn_failed_def)
  have n: "stdin_ops (runCommand command args stdin hideError platform) = []"
    if "stdin = None \<or> stdin = Some []"
    using runCommand_cases [of command args platform stdin hideError] that c
    by (auto simp: spawn_failed_def)
  from a t n show ?thesis by blast
qed

text \<open>
  The theorem at a prompt, at no input, at the empty input, and at a prompt for a command
  line with a NUL character in an argument.
\<close>

theorem run_stdin_guard_witness:
  "stdin_ops (runCommand ''gemini'' [''-y''] (Some ''Fix the bug'') False
     (Child [StdoutData ''ok'', Close (Some 0)])) = [Write ''Fix the bug'', End] \<and>
   stdin_ops (runCommand ''npm'' [''view''] None False (Child [Close (Some 0)])) = [] \<and>
   stdin_ops (runCommand ''gemini'' [''-y''] (Some []) False (Child [StdoutData ''ok''])) = [] \<and>
   spawn ''gemini'' [''-y'', ''-m'', [CHR 0x00]] (Child [StdoutData ''ok'']) =
     Inl (SystemError ''ERR_INVALID_ARG_VALUE'') \<and>
   stdin_ops (runCommand ''gemini'' [''-y'', ''-m'', [CHR 0x00]] (Some ''Fix the bug'') False
     (Child [StdoutData ''ok''])) = []"
proof -
  have v: "\<not> invalid_spawn_arguments ''gemini'' [''-y'']"
    by (simp add: invalid_spawn_arguments_def)
  have s: "spawn ''gemini'' [''-y'', ''-m'', [CHR 0x00]] (Child [StdoutData ''ok'']) =
     Inl (SystemError ''ERR_INVALID_ARG_VALUE'')"
    by (simp add: spawn_def invalid_spawn_arguments_def)
  show ?thesis
    using run_stdin_guard [where stdin = "Some ''Fix the bug''" and s = "''Fix the bug''"
        and command = "''gemini''" and args = "[''-y'']" and hideError = False
        and evs = "[StdoutData ''ok'', Close (Some 0)]" and platform = "Child []"]
      run_stdin_guard [where stdin = None and command = "''npm''" and args = "[''view'']"
        and hideError = False and platform = "Child [Close (Some 0)]"]
      run_stdin_guard [where stdin = "Some []" and command = "''gemini''" and args = "[''-y'']"
        and hideError = False and platform = "Child [StdoutData ''ok'']"]
      run_stdin_guard [where stdin = "Some ''Fix the bug''" and command = "''gemini''"
        and args = "[''-y'', ''-m'', [CHR 0x00]]" and hideError = False
        and platform = "Child [StdoutData ''ok'']"
        and e = "SystemError ''ERR_INVALID_ARG_VALUE''"]
    using v s by simp
qed

text \<open>
  Claim C8 as stated fails twice over: with the empty string as input the child's input
  stream is never ended, and with a prompt as input but a NUL character in an argument
  \<open>spawn\<close> throws before anything is written.
\<close>

theorem run_empty_stdin_counterexample:
  "End \<notin> set (stdin_ops (runCommand ''gemini'' [''-y''] (Some []) False
                 (Child [StdoutData ''ok'']))) \<and>
   stdin_ops (runCommand ''gemini'' [''-y'', ''-m'', [CHR 0x00]] (Some ''Fix the bug'') False
                (Child [StdoutData ''ok''])) = []"
  by code_simp

section \<open>Facts about the token refresh\<close>

lemma of_char_upper_hex_digit:
  "n < 16 \<Longrightarrow> (of_char (upper_hex_digit n) :: nat) = (if n < 10 then 48 + n else 55 + n)"
  by (simp add: upper_hex_digit_def)

lemma upper_hex_digit_not_separator:
  assumes "n < 16"
  shows "upper_hex_digit n \<noteq> CHR ''&'' \<and> upper_hex_digit n \<noteq> CHR ''=''"
proof -
  have "(of_char (upper_hex_digit n) :: nat) \<noteq> 38 \<and> (of_char (upper_hex_digit n) :: nat) \<noteq> 61"
    using assms by (simp add: of_char_upper_hex_digit)
  then show ?thesis by auto
qed

lemma unreserved_not_separator: "is_unreserved c \<Longrightarrow> c \<noteq> CHR ''&'' \<and> c \<noteq> CHR ''=''"
  by (auto simp: is_unreserved_def Let_def)

lemma encoded_no_separator:
  "CHR ''&'' \<notin> set (encodeURIComponent s) \<and> CHR ''='' \<notin> set (encodeURIComponent s)"
proof (induction s)
  case Nil
  show ?case by (simp add: encodeURIComponent_def)
next
  case (Cons c s)
  have "n div 16 < 16" if "n < 256" for n :: nat
    using that by simp
  then have b: "(of_char c :: nat) div 16 < 16" "(of_char c :: nat) mod 16 < 16"
    by simp_all
  have e: "encodeURIComponent (c # s) =
      (if is_unreserved c then [c]
       else [CHR ''%'', upper_hex_digit (of_char c div 16), upper_hex_digit (of_char c mod 16)]) @
      encodeURIComponent s"
    by (simp add: encodeURIComponent_def)
  show ?case
    unfolding e
    using Cons unreserved_not_separator [of c]
      upper_hex_digit_not_separator [OF b(1)] upper_hex_digit_not_separator [OF b(2)]
    by auto
qed

lemma field_split:
  assumes "CHR ''='' \<notin> set k"
  shows "takeWhile (\<lambda>c. c \<noteq> CHR ''='') (k @ ''='' @ v) = k"
    and "drop 1 (dropWhile (\<lambda>c. c \<noteq> CHR ''='') (k @ ''='' @ v)) = v"
  using assms by (induction k) auto


lemma refreshOAuthToken_requests:
  "requests (snd (refreshOAuthToken rt endpoint clientId clientSecret r w)) =
     requests w @ [refresh_request endpoint clientId clientSecret r]"
  by (simp add: refreshOAuthToken_def Let_def split: sum.splits)

lemma key_literals:
  "encodeURIComponent ''grant_type'' = ''grant_type''"
  "encodeURIComponent ''refresh_token'' = ''refresh_token''"
  "encodeURIComponent ''client_id'' = ''client_id''"
  "encodeURIComponent ''client_secret'' = ''client_secret''"
  by (simp_all add: encodeURIComponent_def is_unreserved_def)


lemma body_fields:
  "objectToUrlEncoded (refresh_body clientId clientSecret token) =
     join ''&''
       ([''grant_type'' @ ''='' @ ''refresh_token'',
         ''refresh_token'' @ ''='' @ encodeURIComponent token,
         ''client_id'' @ ''='' @ encodeURIComponent clientId] @
        (case clientSecret of
           None \<Rightarrow> []
         | Some s \<Rightarrow> if s \<noteq> [] then [''client_secret'' @ ''='' @ encodeURIComponent s] else []))"
  unfolding objectToUrlEncoded_def refresh_body_def
  by (simp only: map_append list.map prod.case key_literals option.case_distrib if_distrib
      cong: option.case_cong if_cong)
     (simp split: option.splits)


lemma field_of_pair: "CHR ''='' \<notin> set k \<Longrightarrow> field_of (k @ ''='' @ v) = (k, v)"
  unfolding field_of_def using field_split [of k v] by simp

lemma form_fields_map: "form_fields b = map field_of (split_on (CHR ''&'') b)"
  by (simp add: form_fields_def field_of_def)

lemma no_amp_pair:
  "CHR ''&'' \<notin> set k \<Longrightarrow> CHR ''&'' \<notin> set (k @ ''='' @ encodeURIComponent v)"
  using encoded_no_separator [of v] by simp

lemma form_fields_three:
  assumes "CHR ''&'' \<notin> set a" "CHR ''&'' \<notin> set b" "CHR ''&'' \<notin> set c"
  shows "form_fields (join ''&'' [a, b, c]) = [field_of a, field_of b, field_of c]"
  using assms by (simp add: form_fields_map split_on_append split_on_absent)

lemma form_fields_four:
  assumes "CHR ''&'' \<notin> set a" "CHR ''&'' \<notin> set b" "CHR ''&'' \<notin> set c" "CHR ''&'' \<notin> set d"
  shows "form_fields (join ''&'' [a, b, c, d]) = [field_of a, field_of b, field_of c, field_of d]"
  using assms by (simp add: form_fields_map split_on_append split_on_absent)

lemma refresh_fields:
  "form_fields (objectToUrlEncoded (refresh_body clientId clientSecret token)) =
     [(''grant_type'', ''refresh_token''),
      (''refresh_token'', encodeURIComponent token),
      (''client_id'', encodeURIComponent clientId)] @
     (case clientSecret of
        None \<Rightarrow> []
      | Some s \<Rightarrow> if s \<noteq> [] then [(''client_secret'', encodeURIComponent s)] else [])"
proof -
  let ?g = "''grant_type'' @ ''='' @ ''refresh_token''"
  let ?r = "''refresh_token'' @ ''='' @ encodeURIComponent token"
  let ?c = "''client_id'' @ ''='' @ encodeURIComponent clientId"
  have ag: "CHR ''&'' \<notin> set ?g" by simp
  have ar: "CHR ''&'' \<notin> set ?r" by (rule no_amp_pair) simp
  have ac: "CHR ''&'' \<notin> set ?c" by (rule no_amp_pair) simp
  have fg: "field_of ?g = (''grant_type'', ''refresh_token'')" by (rule field_of_pair) simp
  have fr: "field_of ?r = (''refresh_token'', encodeURIComponent token)"
    by (rule field_of_pair) simp
  have fc: "field_of ?c = (''client_id'', encodeURIComponent clientId)"
    by (rule field_of_pair) simp
  show ?thesis
  proof (cases "\<exists>s. clientSecret = Some s \<and> s \<noteq> []")
    case True
    then obtain s where s: "clientSecret = Some s" "s \<noteq> []" by blast
    let ?d = "''client_secret'' @ ''='' @ encodeURIComponent s"
    have ad: "CHR ''&'' \<notin> set ?d" by (rule no_amp_pair) simp
    have fd: "field_of ?d = (''client_secret'', encodeURIComponent s)"
      by (rule field_of_pair) simp
    have e: "objectToUrlEncoded (refresh_body clientId clientSecret token) = join ''&'' [?g, ?r, ?c, ?d]"
      unfolding body_fields using s by simp
    have rhs: "(case clientSecret of
        None \<Rightarrow> []
      | Some s \<Rightarrow> if s \<noteq> [] then [(''client_secret'', encodeURIComponent s)] else []) =
      [(''client_secret'', encodeURIComponent s)]"
      using s by simp
    show ?thesis
      unfolding e rhs form_fields_four [OF ag ar ac ad] fg fr fc fd by simp
  next
    case False
    then have n: "(case clientSecret of None \<Rightarrow> [] | Some s \<Rightarrow> if s \<noteq> [] then [x s] else []) = []"
      for x :: "string \<Rightarrow> 'b"
      by (auto split: option.splits)
    have e: "objectToUrlEncoded (refresh_body clientId clientSecret token) = join ''&'' [?g, ?r, ?c]"
      unfolding body_fields n by simp
    show ?thesis
      unfolding e n form_fields_three [OF ag ar ac] fg fr fc by simp
  qed
qed


text \<open>
  Claim C7. Every refresh sends one \<open>POST\<close> request to the token endpoint whose
  form-encoded body holds, in this order, \<open>grant_type=refresh_token\<close>, the given refresh
  token and the client identifier (both percent-encoded), and the field \<open>client_secret\<close>
  exactly when a client secret is supplied, the empty string counting as none: without a
  secret the field is absent from the body, and it is never sent with an empty value.
\<close>

theorem refresh_request_body:
  fixes clientSecret :: "string option"
  defines "secret_field \<equiv>
     (case clientSecret of
        None \<Rightarrow> []
      | Some s \<Rightarrow> if s \<noteq> [] then [(''client_secret'', encodeURIComponent s)] else [])"
  shows "\<exists>req. requests (snd (refreshOAuthToken rt endpoint clientId clientSecret token w)) =
                  requests w @ [req] \<and>
               url req = endpoint \<and> http_method req = ''POST'' \<and>
               form_fields (body req) =
                 [(''grant_type'', ''refresh_token''),
                  (''refresh_token'', encodeURIComponent token),
                  (''client_id'', encodeURIComponent clientId)] @ secret_field \<and>
               (''client_secret'' \<in> fst ` set (form_fields (body req)) \<longleftrightarrow>
                  (\<exists>s. clientSecret = Some s \<and> s \<noteq> [])) \<and>
               (''client_secret'', []) \<notin> set (form_fields (body req))"
proof -
  define req where "req = refresh_request endpoint clientId clientSecret token"
  have b: "body req = objectToUrlEncoded (refresh_body clientId clientSecret token)"
    by (simp add: req_def refresh_request_def)
  have ne: "encodeURIComponent s \<noteq> []" if "s \<noteq> []" for s
    using that by (cases s) (simp_all add: encodeURIComponent_def)
  have fields: "form_fields (body req) =
      [(''grant_type'', ''refresh_token''),
       (''refresh_token'', encodeURIComponent token),
       (''client_id'', encodeURIComponent clientId)] @ secret_field"
    unfolding b secret_field_def by (rule refresh_fields)
  have p: "''client_secret'' \<in> fst ` set (form_fields (body req)) \<longleftrightarrow>
      (\<exists>s. clientSecret = Some s \<and> s \<noteq> [])"
    unfolding fields secret_field_def by (cases clientSecret) auto
  have q: "(''client_secret'', []) \<notin> set (form_fields (body req))"
    unfolding fields secret_field_def using ne by (cases clientSecret) force+
  have u: "url req = endpoint \<and> http_method req = ''POST''"
    by (simp add: req_def refresh_request_def)
  have "requests (snd (refreshOAuthToken rt endpoint clientId clientSecret token w)) =
      requests w @ [req]"
    unfolding req_def by (rule refreshOAuthToken_requests)
  with u fields p q show ?thesis by (intro exI [of _ req]) simp
qed

text \<open>
  The theorem at a provider without a secret and at one with a secret.
\<close>

theorem refresh_request_body_witness:
  "form_fields (body (last (requests (snd (refreshOAuthToken demo_runtime
       ''https://chat.qwen.ai/api/v1/oauth2/token'' QWEN_OAUTH_CLIENT_ID None ''1//0g old''
       new_world))))) =
     [(''grant_type'', ''refresh_token''),
      (''refresh_token'', ''1%2F%2F0g%20old''),
      (''client_id'', ''f0304373b74a44d2b584a3fb70ca9e56'')] \<and>
   form_fields (body (last (requests (snd (refreshOAuthToken demo_runtime
       ''https://oauth2.googleapis.com/token'' ''id'' (Some ''s=1'') ''old-token''
       new_world))))) =
     [(''grant_type'', ''refresh_token''),
      (''refresh_token'', ''old-token''),
      (''client_id'', ''id''),
      (''client_secret'', ''s%3D1'')]"
proof -
  have e: "encodeURIComponent ''1//0g old'' = ''1%2F%2F0g%20old''"
    "encodeURIComponent QWEN_OAUTH_CLIENT_ID = ''f0304373b74a44d2b584a3fb70ca9e56''"
    "encodeURIComponent ''old-token'' = ''old-token''"
    "encodeURIComponent ''id'' = ''id''"
    "encodeURIComponent ''s=1'' = ''s%3D1''"
    by code_simp+
  from refresh_request_body [of demo_runtime "''https://chat.qwen.ai/api/v1/oauth2/token''"
      QWEN_OAUTH_CLIENT_ID None "''1//0g old''" new_world]
  obtain req where "requests (snd (refreshOAuthToken demo_runtime
       ''https://chat.qwen.ai/api/v1/oauth2/token'' QWEN_OAUTH_CLIENT_ID None ''1//0g old''
       new_world)) = requests new_world @ [req]"
    and "form_fields (body req) =
     [(''grant_type'', ''refresh_token''),
      (''refresh_token'', encodeURIComponent ''1//0g old''),
      (''client_id'', encodeURIComponent QWEN_OAUTH_CLIENT_ID)]"
    by auto
  then have a: "form_fields (body (last (requests (snd (refreshOAuthToken demo_runtime
       ''https://chat.qwen.ai/api/v1/oauth2/token'' QWEN_OAUTH_CLIENT_ID None ''1//0g old''
       new_world))))) =
     [(''grant_type'', ''refresh_token''),
      (''refresh_token'', ''1%2F%2F0g%20old''),
      (''client_id'', ''f0304373b74a44d2b584a3fb70ca9e56'')]"
    by (simp only: last_snoc e)
  from refresh_request_body [of demo_runtime "''https://oauth2.googleapis.com/token''"
      "''id''" "Some ''s=1''" "''old-token''" new_world]
  obtain req' where "requests (snd (refreshOAuthToken demo_runtime
       ''https://oauth2.googleapis.com/token'' ''id'' (Some ''s=1'') ''old-token''
       new_world)) = requests new_world @ [req']"
    and "form_fields (body req') =
     [(''grant_type'', ''refresh_token''),
      (''refresh_token'', encodeURIComponent ''old-token''),
      (''client_id'', encodeURIComponent ''id''),
      (''client_secret'', encodeURIComponent ''s=1'')]"
    by auto
  then have b: "form_fields (body (last (requests (snd (refreshOAuthToken demo_runtime
       ''https://oauth2.googleapis.com/token'' ''id'' (Some ''s=1'') ''old-token''
       new_world))))) =
     [(''grant_type'', ''refresh_token''),
      (''refresh_token'', ''old-token''),
      (''client_id'', ''id''),
      (''client_secret'', ''s%3D1'')]"
    by (simp only: last_snoc e)
  from a b show ?thesis by (rule conjI)
qed

text \<open>What a successful refresh returns does not depend on the response.\<close>

lemma refresh_result:
  assumes "fetch rt (refresh_request endpoint clientId clientSecret token) = Inr res" and "ok res"
  shows "fst (refreshOAuthToken rt endpoint clientId clientSecret token w) =
           Inr [(''refresh_token'', JStr token)]"
  using assms
  by (simp add: refreshOAuthToken_def Let_def own_enumerable_properties_def assign_def)

text \<open>
  Claim C1 fails on the code. The token endpoint answers with status 200 and a body that
  holds a new refresh token, an access token, a token kind, a scope and an identity token;
  the function returns an object with the original refresh token and nothing else. The
  promise \<open>res.json()\<close> is spread without being awaited, so no field of the response
  reaches the result.
\<close>

theorem refresh_drops_response_fields:
  "body_json rotated_response =
     Some (JObj [(''access_token'', JStr ''new-access''),
                 (''refresh_token'', JStr ''rotated''),
                 (''expires_in'', JNum 3599),
                 (''token_type'', JStr ''Bearer''),
                 (''scope'', JStr ''openid''),
                 (''id_token'', JStr ''new-id'')]) \<and>
   fetch demo_runtime (refresh_request ''https://oauth2.googleapis.com/token''
      GEMINI_OAUTH_CLIENT_ID (Some GEMINI_OAUTH_CLIENT_SECRET) ''old-token'') =
     Inr rotated_response \<and>
   ok rotated_response \<and>
   fst (refreshOAuthToken demo_runtime ''https://oauth2.googleapis.com/token''
          GEMINI_OAUTH_CLIENT_ID (Some GEMINI_OAUTH_CLIENT_SECRET) ''old-token'' new_world) =
     Inr [(''refresh_token'', JStr ''old-token'')]"
proof -
  have f: "fetch demo_runtime (refresh_request ''https://oauth2.googleapis.com/token''
      GEMINI_OAUTH_CLIENT_ID (Some GEMINI_OAUTH_CLIENT_SECRET) ''old-token'') =
     Inr rotated_response"
    by (simp add: demo_runtime_def)
  have k: "ok rotated_response" by (simp add: rotated_response_def)
  from refresh_result [OF f k] f k show ?thesis by (simp add: rotated_response_def)
qed

lemma refreshToken_gemini_requests:
  "requests (snd (refreshToken rt ''gemini'' r w)) =
     requests w @ [refresh_request ''https://oauth2.googleapis.com/token''
                     GEMINI_OAUTH_CLIENT_ID (Some GEMINI_OAUTH_CLIENT_SECRET) r]"
  using refreshOAuthToken_requests [of rt "''https://oauth2.googleapis.com/token''"
      GEMINI_OAUTH_CLIENT_ID "Some GEMINI_OAUTH_CLIENT_SECRET" r w]
  by (auto simp: refreshToken_def refreshGeminiToken_def split: prod.splits sum.splits)

lemma requests_write_config: "requests (write_config rt config t w) = requests w"
  by (simp add: write_config_def)

lemma creds_write_config:
  "files (write_config rt config t w) (path_join rt (configDir config) ''oauth_creds.json'') = Some t"
  by (simp add: write_config_def)

lemma setupConfig_other_requests:
  "agent \<noteq> ''gemini'' \<Longrightarrow> requests (snd (setupConfig rt agent config w)) = requests w"
  by (simp add: setupConfig_def requests_write_config split: option.splits sum.splits)

lemma setupConfig_other:
  assumes "agent \<noteq> ''gemini''"
    and "env rt (tokenEnv config) = Some token" "token \<noteq> []"
    and "JSON_parse rt token = Inr tokenData" "refresh_token tokenData = Some r"
  shows "setupConfig rt agent config w = (Inr (), write_config rt config token w)"
  using assms by (simp add: setupConfig_def)

lemma setupConfig_gemini:
  assumes "env rt (tokenEnv config) = Some token" "token \<noteq> []"
    and "JSON_parse rt token = Inr tokenData" "refresh_token tokenData = Some r"
  shows "requests (snd (setupConfig rt ''gemini'' config w)) =
     requests w @ [refresh_request ''https://oauth2.googleapis.com/token''
                     GEMINI_OAUTH_CLIENT_ID (Some GEMINI_OAUTH_CLIENT_SECRET) r]"
  using assms refreshToken_gemini_requests [of rt r w]
  by (auto simp: setupConfig_def requests_write_config split: prod.splits sum.splits)

lemma refreshOAuthToken_ok:
  assumes "fetch rt (refresh_request endpoint clientId clientSecret token) = Inr res" and "ok res"
  shows "refreshOAuthToken rt endpoint clientId clientSecret token w =
           (Inr [(''refresh_token'', JStr token)],
            w\<lparr>requests := requests w @ [refresh_request endpoint clientId clientSecret token]\<rparr>)"
  using assms
  by (simp add: refreshOAuthToken_def Let_def own_enumerable_properties_def assign_def)

text \<open>
  What \<open>setupConfig\<close> does by agent, once the secret is set, parses and holds a refresh
  token. For an agent other than \<open>gemini\<close> no request is sent and the secret's text is
  written as it is. For \<open>gemini\<close> one request is sent, and when the endpoint answers with
  success the credential file gets the text of the object \<open>refreshOAuthToken\<close> returned,
  which holds the refresh token that was sent and nothing of the response.
\<close>

lemma setupConfig_other_agents:
  assumes "agent \<noteq> ''gemini''"
    and "env rt (tokenEnv config) = Some token" "token \<noteq> []"
    and "JSON_parse rt token = Inr tokenData" "refresh_token tokenData = Some r"
  shows "fst (setupConfig rt agent config w) = Inr () \<and>
         requests (snd (setupConfig rt agent config w)) = requests w \<and>
         files (snd (setupConfig rt agent config w))
           (path_join rt (configDir config) ''oauth_creds.json'') = Some token"
  using setupConfig_other [OF assms, of w] by (simp add: creds_write_config requests_write_config)

lemma setupConfig_gemini_file:
  assumes "env rt (tokenEnv config) = Some token" "token \<noteq> []"
    and "JSON_parse rt token = Inr tokenData" "refresh_token tokenData = Some r"
    and "fetch rt (refresh_request ''https://oauth2.googleapis.com/token''
           GEMINI_OAUTH_CLIENT_ID (Some GEMINI_OAUTH_CLIENT_SECRET) r) = Inr res"
    and "ok res"
  shows "fst (setupConfig rt ''gemini'' config w) = Inr () \<and>
         files (snd (setupConfig rt ''gemini'' config w))
           (path_join rt (configDir config) ''oauth_creds.json'') =
           Some (JSON_stringify rt (JObj [(''refresh_token'', JStr r)]))"
  using assms(1-4) refreshOAuthToken_ok [OF assms(5,6), of w]
  by (simp add: setupConfig_def refreshToken_def refreshGeminiToken_def creds_write_config)

text \<open>
  Claim C9 fails on the code for the agent \<open>gemini\<close>. The stored credential holds the
  refresh token \<open>old-token\<close>, and the token endpoint answers the one request with status
  200 and a new access token, a rotated refresh token and the other fields of a
  credential. \<open>setupConfig\<close> succeeds and writes to the credential file the text of an
  object that holds the old refresh token and nothing else: no new credential is stored.
  The cause is the one of claim C1, the promise \<open>res.json()\<close> spread without being
  awaited.
\<close>

theorem setupConfig_gemini_stores_no_new_credential:
  "fetch demo_runtime (refresh_request ''https://oauth2.googleapis.com/token''
      GEMINI_OAUTH_CLIENT_ID (Some GEMINI_OAUTH_CLIENT_SECRET) ''old-token'') =
     Inr rotated_response \<and>
   fst (setupConfig demo_runtime ''gemini'' gemini_config new_world) = Inr () \<and>
   requests (snd (setupConfig demo_runtime ''gemini'' gemini_config new_world)) =
     [refresh_request ''https://oauth2.googleapis.com/token''
        GEMINI_OAUTH_CLIENT_ID (Some GEMINI_OAUTH_CLIENT_SECRET) ''old-token''] \<and>
   files (snd (setupConfig demo_runtime ''gemini'' gemini_config new_world))
     ''/home/runner/.gemini/oauth_creds.json'' =
     Some (JSON_stringify demo_runtime (JObj [(''refresh_token'', JStr ''old-token'')]))"
proof -
  let ?td = "\<lparr>access_token = ''old-access'', refresh_token = Some ''old-token'',
              expires_in = 3599, token_type = ''Bearer'', scope = None, id_token = None\<rparr>"
  have e: "env demo_runtime (tokenEnv gemini_config) = Some stored_credential"
    by (simp add: demo_runtime_def gemini_config_def)
  have ne: "stored_credential \<noteq> []" by (simp add: stored_credential_def)
  have p: "JSON_parse demo_runtime stored_credential = Inr ?td"
    by (simp add: demo_runtime_def)
  have r: "refresh_token ?td = Some ''old-token''" by simp
  have f: "fetch demo_runtime (refresh_request ''https://oauth2.googleapis.com/token''
      GEMINI_OAUTH_CLIENT_ID (Some GEMINI_OAUTH_CLIENT_SECRET) ''old-token'') =
     Inr rotated_response"
    by (simp add: demo_runtime_def)
  have k: "ok rotated_response" by (simp add: rotated_response_def)
  have pg: "path_join demo_runtime (configDir gemini_config) ''oauth_creds.json'' =
      ''/home/runner/.gemini/oauth_creds.json''"
    by (simp add: demo_runtime_def gemini_config_def)
  have w: "requests new_world = []" by (simp add: new_world_def)
  from setupConfig_gemini_file [OF e ne p r f k, of new_world]
    setupConfig_gemini [OF e ne p r, of new_world] f
  show ?thesis unfolding pg w by simp
qed

text \<open>
  For comparison, the agent \<open>qwen\<close> in the same surroundings: no request, and the stored
  credential written as it is.
\<close>

lemma setupConfig_qwen_example:
  "getAgentConfig demo_runtime ''qwen'' = Inr qwen_config \<and>
   getAgentConfig demo_runtime ''gemini'' = Inr gemini_config \<and>
   fst (setupConfig demo_runtime ''qwen'' qwen_config new_world) = Inr () \<and>
   requests (snd (setupConfig demo_runtime ''qwen'' qwen_config new_world)) = [] \<and>
   files (snd (setupConfig demo_runtime ''qwen'' qwen_config new_world))
     ''/home/runner/.qwen/oauth_creds.json'' = Some stored_credential"
proof -
  let ?td = "\<lparr>access_token = ''old-access'', refresh_token = Some ''old-token'',
              expires_in = 3599, token_type = ''Bearer'', scope = None, id_token = None\<rparr>"
  have q: "getAgentConfig demo_runtime ''qwen'' = Inr qwen_config"
    and g: "getAgentConfig demo_runtime ''gemini'' = Inr gemini_config"
    by (simp_all add: getAgentConfig_def demo_runtime_def qwen_config_def gemini_config_def)
  have e: "env demo_runtime (tokenEnv qwen_config) = Some stored_credential"
    by (simp add: demo_runtime_def qwen_config_def)
  have ne: "stored_credential \<noteq> []" by (simp add: stored_credential_def)
  have p: "JSON_parse demo_runtime stored_credential = Inr ?td"
    by (simp add: demo_runtime_def)
  have r: "refresh_token ?td = Some ''old-token''" by simp
  have n: "''qwen'' \<noteq> ''gemini''" by simp
  have pq: "path_join demo_runtime (configDir qwen_config) ''oauth_creds.json'' =
      ''/home/runner/.qwen/oauth_creds.json''"
    by (simp add: demo_runtime_def qwen_config_def)
  have w: "requests new_world = []" by (simp add: new_world_def)
  from setupConfig_other_agents [OF n e ne p r, of new_world] q g
  show ?thesis unfolding pq w by simp
qed

end
